theory Spec2Isabelle
  imports Main "HOL-Library.Word" "HOL-Library.Multiset"
begin

unbundle bit_operations_syntax

section \<open>Path selection filters (backup and restore)\<close>

text \<open>
  Both filters call Go's \<^verbatim>\<open>filepath.Match(pattern, name)\<close> and \<^verbatim>\<open>filepath.Base(item)\<close>
  and drop the error of \<^verbatim>\<open>Match\<close> (\<^verbatim>\<open>matched, _ = ...\<close>).  The two library
  functions are parameters \<open>mtch\<close> and \<open>base\<close> of the model: \<open>mtch p n\<close> is the
  boolean that \<^verbatim>\<open>filepath.Match\<close> returns.
\<close>

type_synonym matcher = "string \<Rightarrow> string \<Rightarrow> bool"

text \<open>
  The include loop of \<^verbatim>\<open>Restore\<close>'s \<^verbatim>\<open>selectFilter\<close>: the variable \<^verbatim>\<open>matched\<close> is
  assigned by every call of \<^verbatim>\<open>Match\<close>, and the loop is left at the first \<open>True\<close>.
\<close>

fun restore_include_loop :: "matcher \<Rightarrow> (string \<Rightarrow> string) \<Rightarrow> string list \<Rightarrow> string \<Rightarrow> bool \<Rightarrow> bool" where
  "restore_include_loop mtch base [] item matched = matched"
| "restore_include_loop mtch base (pattern # ps) item matched =
     (if mtch pattern item then True
      else if mtch pattern (base item) then True
      else restore_include_loop mtch base ps item False)"

text \<open>The exclude loop of \<^verbatim>\<open>selectFilter\<close>; \<open>None\<close> when the loop runs to its end.\<close>

fun restore_exclude_loop :: "matcher \<Rightarrow> (string \<Rightarrow> string) \<Rightarrow> string list \<Rightarrow> string \<Rightarrow> (bool \<times> bool) option" where
  "restore_exclude_loop mtch base [] item = None"
| "restore_exclude_loop mtch base (pattern # ps) item =
     (if mtch pattern item then Some (False, False)
      else if mtch pattern (base item) then Some (False, False)
      else restore_exclude_loop mtch base ps item)"

definition selectFilter :: "matcher \<Rightarrow> (string \<Rightarrow> string) \<Rightarrow> string list \<Rightarrow> string list \<Rightarrow> string \<Rightarrow> bool \<Rightarrow> bool \<times> bool" where
  "selectFilter mtch base includePatterns excludePatterns item isDir =
     (if length includePatterns > 0 \<and> \<not> restore_include_loop mtch base includePatterns item False
      then (False, True)
      else (case restore_exclude_loop mtch base excludePatterns item of
              Some r \<Rightarrow> r
            | None \<Rightarrow> (True, True)))"

text \<open>
  \<^verbatim>\<open>Backup\<close> installs \<^verbatim>\<open>arch.SelectByName\<close>, a function of the item alone that
  returns one boolean.  Each pattern is tried on \<^verbatim>\<open>filepath.Base(item)\<close> only.
\<close>

fun backup_include_loop :: "matcher \<Rightarrow> (string \<Rightarrow> string) \<Rightarrow> string list \<Rightarrow> string \<Rightarrow> bool \<Rightarrow> bool" where
  "backup_include_loop mtch base [] item matched = matched"
| "backup_include_loop mtch base (pattern # ps) item matched =
     (if mtch pattern (base item) then True
      else backup_include_loop mtch base ps item False)"

fun backup_exclude_loop :: "matcher \<Rightarrow> (string \<Rightarrow> string) \<Rightarrow> string list \<Rightarrow> string \<Rightarrow> bool option" where
  "backup_exclude_loop mtch base [] item = None"
| "backup_exclude_loop mtch base (pattern # ps) item =
     (if mtch pattern (base item) then Some False
      else backup_exclude_loop mtch base ps item)"

definition SelectByName :: "matcher \<Rightarrow> (string \<Rightarrow> string) \<Rightarrow> string list \<Rightarrow> string list \<Rightarrow> string \<Rightarrow> bool" where
  "SelectByName mtch base Includes Excludes item =
     (if length Includes > 0 \<and> \<not> backup_include_loop mtch base Includes item False
      then False
      else (case backup_exclude_loop mtch base Excludes item of
              Some r \<Rightarrow> r
            | None \<Rightarrow> True))"

subsection \<open>A concrete matcher for instances\<close>

text \<open>
  Modelled from the spec: \<^verbatim>\<open>filepath.Match\<close> and \<^verbatim>\<open>filepath.Base\<close> belong to the Go
  standard library, not to the repository.  The spec describes the patterns as globs
  (\<^verbatim>\<open>*\<close>, \<^verbatim>\<open>?\<close>, character classes).  \<open>Match\<close> covers the patterns made of literal
  characters, \<^verbatim>\<open>*\<close> (any run of characters other than \<^verbatim>\<open>/\<close>) and \<^verbatim>\<open>?\<close> (one character
  other than \<^verbatim>\<open>/\<close>) on byte strings with \<^verbatim>\<open>/\<close> as separator; character classes and
  backslash escapes are not covered, and no instance below uses them.  The general
  theorems do not depend on \<open>Match\<close>: they hold for every matcher.
\<close>

fun Match :: "string \<Rightarrow> string \<Rightarrow> bool" where
  "Match [] name = (name = [])"
| "Match (p # ps) name =
     (if p = CHR ''*''
      then (Match ps name \<or> (case name of [] \<Rightarrow> False | c # cs \<Rightarrow> c \<noteq> CHR ''/'' \<and> Match (p # ps) cs))
      else (case name of
              [] \<Rightarrow> False
            | c # cs \<Rightarrow> (if p = CHR ''?'' then c \<noteq> CHR ''/'' else c = p) \<and> Match ps cs))"

text \<open>
  \<^verbatim>\<open>filepath.Base\<close> on Unix: \<^verbatim>\<open>"."\<close> for the empty path; trailing separators are
  stripped; the part after the last separator is returned; a path of separators only
  gives \<^verbatim>\<open>"/"\<close>.
\<close>

definition Base :: "string \<Rightarrow> string" where
  "Base path =
     (if path = [] then ''.''
      else (let stripped = rev (dropWhile (\<lambda>c. c = CHR ''/'') (rev path));
                last_elem = rev (takeWhile (\<lambda>c. c \<noteq> CHR ''/'') (rev stripped))
            in if last_elem = [] then ''/'' else last_elem))"

section \<open>Library types\<close>

text \<open>
  The calls of \<^verbatim>\<open>r.logf\<close> only write to the optional logger; they are left out of every
  function below.  A Go slice is a list (\<^verbatim>\<open>nil\<close> and the empty slice are both \<open>[]\<close>), a
  pointer to a string is a \<open>string option\<close>, and Go's 64-bit \<^verbatim>\<open>int\<close> is \<open>int\<close> where it
  holds a configured number or counts files.
\<close>

text \<open>
  \<^verbatim>\<open>data.Snapshot\<close>, the engine's snapshot.  An identifier is its hexadecimal text
  (\<^verbatim>\<open>String()\<close>); a time is an instant on the integer line, so that \<^verbatim>\<open>After\<close> is
  \<open>>\<close> and \<^verbatim>\<open>Before\<close> is \<open><\<close>.
\<close>

record snapshot =
  dID :: string
  dTime :: int
  dTree :: string
  dPaths :: "string list"
  dHostname :: string
  dUsername :: string
  dTags :: "string list"
  dParent :: "string option"

text \<open>
  The option records carry the fields that the modelled code reads or sets;
  \<^verbatim>\<open>ParentID\<close>, \<^verbatim>\<open>DryRun\<close> of the backup options and the \<^verbatim>\<open>Progress\<close> reporters are
  never set by the bridge and are left out.
\<close>

record BackupOptions =
  Paths :: "string list"
  Tags :: "string list"
  Excludes :: "string list"
  Includes :: "string list"

record RestoreOptions =
  TargetDir :: string
  rIncludes :: "string list"
  rExcludes :: "string list"
  Overwrite :: bool
  Delete :: bool
  DryRun :: bool

record SnapshotFilter =
  Hosts :: "string list"
  fPaths :: "string list"
  fTags :: "string list"
  Since :: "string option"
  Until :: "string option"
  Limit :: int

text \<open>
  The library's \<^verbatim>\<open>Snapshot\<close>: every field a string, the time formatted.  The field
  \<^verbatim>\<open>Summary\<close> is never set by the library and is left out.
\<close>

record Snapshot =
  ID :: string
  Time_s :: string
  Tree_s :: string
  Paths_s :: "string list"
  Hostname_s :: string
  Username_s :: string
  Tags_s :: "string list"
  Parent_s :: "string option"

record CheckReport =
  Errors :: "string list"
  Warnings :: "string list"
  Success :: bool

text \<open>\<^verbatim>\<open>SnapshotFilter{}\<close>, the filter with every field at its zero value.\<close>

definition empty_filter :: SnapshotFilter where
  "empty_filter = \<lparr>Hosts = [], fPaths = [], fTags = [], Since = None, Until = None, Limit = 0\<rparr>"

record ForgetPolicy =
  KeepLast :: int
  KeepHourly :: int
  KeepDaily :: int
  KeepWeekly :: int
  KeepMonthly :: int
  KeepYearly :: int
  KeepWithin :: "string option"
  KeepTags :: "string list"

definition Empty :: "ForgetPolicy \<Rightarrow> bool" where
  "Empty p \<longleftrightarrow>
     KeepLast p = 0 \<and> KeepHourly p = 0 \<and> KeepDaily p = 0 \<and>
     KeepWeekly p = 0 \<and> KeepMonthly p = 0 \<and> KeepYearly p = 0 \<and>
     KeepWithin p = None \<and> length (KeepTags p) = 0"

text \<open>
  The fields of \<^verbatim>\<open>data.ExpirePolicy\<close> that \<^verbatim>\<open>Forget\<close> sets.  \<open>'d\<close> is the engine's
  duration type; \<open>Within = None\<close> is the zero duration the struct literal leaves.
\<close>

record 'd ExpirePolicy =
  Last :: int
  Hourly :: int
  Daily :: int
  Weekly :: int
  Monthly :: int
  Yearly :: int
  Within :: "'d option"
  pTags :: "string list list"

record PruneOptions =
  pDryRun :: bool
  MaxUnused :: string
  MaxRepackSize :: string

record PruneReport =
  PacksDeleted :: int
  PacksKept :: int
  PacksRepacked :: int
  BytesDeleted :: "64 word"
  BytesRepacked :: "64 word"

definition CheckDepthDefault :: string where "CheckDepthDefault = ''default''"
definition CheckDepthFull :: string where "CheckDepthFull = ''full''"
definition CheckDepthReadData :: string where "CheckDepthReadData = ''read_data''"

text \<open>
  One constructor for each place where the library makes an error; a string argument
  is the message of the collaborator's error that is wrapped.  \<open>Collaborator\<close> is an
  error of a collaborator handed on as it is.
\<close>

datatype lib_error =
    Password_required
  | Forget_policy_empty
  | Failed_to_list_snapshots string
  | Failed_to_group_snapshots string
  | Invalid_keep_within string string
  | Failed_to_load_index string
  | Prune_failed string
  | Index_check_failed
  | Collaborator string

text \<open>
  Modelled from the spec: the Storage Session and Checker collaborators of section 6
  (\<^verbatim>\<open>repository.Repository\<close> and its checker are not under \<^verbatim>\<open>src/\<close>).  The record holds
  what the collaborator answers:
  \<^item> \<open>snapshot_listing\<close>, \<open>pack_listing\<close>: \<^verbatim>\<open>List\<close> of a file kind, as the identifiers
    handed to the callback in order and the error \<^verbatim>\<open>List\<close> returns at the end;
  \<^item> \<open>stored_snapshots\<close>: \<^verbatim>\<open>data.LoadSnapshot\<close>, \<open>None\<close> when loading fails;
  \<^item> \<open>remove_error\<close>: the error of \<^verbatim>\<open>RemoveUnpacked\<close> for an identifier;
  \<^item> \<open>index_error\<close>: the error of \<^verbatim>\<open>LoadIndex\<close>;
  \<^item> \<open>checker_index\<close>: the hints and the errors of the checker's \<^verbatim>\<open>LoadIndex\<close>;
  \<^item> \<open>checker_packs\<close>, \<open>checker_data\<close>: the errors that \<^verbatim>\<open>Packs\<close> and \<^verbatim>\<open>ReadData\<close> send
    before they close their channel.
\<close>

record repo =
  snapshot_listing :: "string list \<times> string option"
  stored_snapshots :: "string \<rightharpoonup> snapshot"
  remove_error :: "string \<Rightarrow> string option"
  pack_listing :: "string list \<times> string option"
  index_error :: "string option"
  checker_index :: "string list \<times> string list"
  checker_packs :: "string list"
  checker_data :: "string list"

text \<open>A successful \<^verbatim>\<open>RemoveUnpacked\<close> of a snapshot file deletes it from the store.\<close>

definition RemoveUnpacked :: "repo \<Rightarrow> string \<Rightarrow> string option \<times> repo" where
  "RemoveUnpacked r ident =
     (case remove_error r ident of
        Some err \<Rightarrow> (Some err, r)
      | None \<Rightarrow>
          (None, r\<lparr>snapshot_listing := (removeAll ident (fst (snapshot_listing r)), snd (snapshot_listing r)),
                   stored_snapshots := (stored_snapshots r)(ident := None)\<rparr>))"

text \<open>
  The functions of the Go standard library and of the engine that the library calls and
  that are not under \<^verbatim>\<open>src/\<close>, as one record of parameters:
  \<^verbatim>\<open>time.Parse(time.RFC3339, s)\<close> (\<open>None\<close> for an error), \<^verbatim>\<open>Time.Format(time.RFC3339)\<close>,
  \<^verbatim>\<open>ID.Str()\<close>, \<^verbatim>\<open>sort.Slice\<close> (given the \<^verbatim>\<open>less\<close> function on elements),
  \<^verbatim>\<open>data.ParseDuration\<close>, \<^verbatim>\<open>data.GroupSnapshots\<close> (the groups in the order the loop
  visits them) and \<^verbatim>\<open>data.ApplyPolicy\<close> (the lists \<^verbatim>\<open>keep\<close> and \<^verbatim>\<open>remove\<close>).
\<close>

record 'd env =
  time_Parse :: "string \<Rightarrow> int option"
  time_Format :: "int \<Rightarrow> string"
  id_Str :: "string \<Rightarrow> string"
  sort_Slice :: "(snapshot \<Rightarrow> snapshot \<Rightarrow> bool) \<Rightarrow> snapshot list \<Rightarrow> snapshot list"
  ParseDuration :: "string \<Rightarrow> string + 'd"
  GroupSnapshots :: "snapshot list \<Rightarrow> string + snapshot list list"
  ApplyPolicy :: "snapshot list \<Rightarrow> 'd ExpirePolicy \<Rightarrow> snapshot list \<times> snapshot list"

section \<open>Listing snapshots (snapshots.go)\<close>

text \<open>\<^verbatim>\<open>strings.Contains(s, substr)\<close>.\<close>

fun Contains :: "string \<Rightarrow> string \<Rightarrow> bool" where
  "Contains [] substr = (substr = [])"
| "Contains (c # cs) substr = (take (length substr) (c # cs) = substr \<or> Contains cs substr)"

text \<open>The three searches of \<^verbatim>\<open>matchesFilter\<close>; each returns \<^verbatim>\<open>found\<close>.\<close>

fun hosts_loop :: "string list \<Rightarrow> string \<Rightarrow> bool" where
  "hosts_loop [] hostname = False"
| "hosts_loop (host # hs) hostname = (if hostname = host then True else hosts_loop hs hostname)"

fun paths_inner_loop :: "string list \<Rightarrow> string \<Rightarrow> bool" where
  "paths_inner_loop [] filterPath = False"
| "paths_inner_loop (snPath # ps) filterPath =
     (if Contains snPath filterPath then True else paths_inner_loop ps filterPath)"

fun paths_loop :: "string list \<Rightarrow> string list \<Rightarrow> bool" where
  "paths_loop [] snPaths = False"
| "paths_loop (filterPath # fs) snPaths =
     (if paths_inner_loop snPaths filterPath then True else paths_loop fs snPaths)"

fun tags_inner_loop :: "string list \<Rightarrow> string \<Rightarrow> bool" where
  "tags_inner_loop [] filterTag = False"
| "tags_inner_loop (snTag # ts) filterTag =
     (if snTag = filterTag then True else tags_inner_loop ts filterTag)"

fun tags_loop :: "string list \<Rightarrow> string list \<Rightarrow> bool" where
  "tags_loop [] snTags = False"
| "tags_loop (filterTag # fs) snTags =
     (if tags_inner_loop snTags filterTag then True else tags_loop fs snTags)"

definition matchesFilter :: "'d env \<Rightarrow> snapshot \<Rightarrow> SnapshotFilter \<Rightarrow> bool" where
  "matchesFilter E sn f =
     (if length (Hosts f) > 0 \<and> \<not> hosts_loop (Hosts f) (dHostname sn) then False
      else if length (fPaths f) > 0 \<and> \<not> paths_loop (fPaths f) (dPaths sn) then False
      else if length (fTags f) > 0 \<and> \<not> tags_loop (fTags f) (dTags sn) then False
      else if (case Since f of
                 None \<Rightarrow> False
               | Some text \<Rightarrow> (case time_Parse E text of
                                None \<Rightarrow> False
                              | Some since \<Rightarrow> dTime sn < since)) then False
      else if (case Until f of
                 None \<Rightarrow> False
               | Some text \<Rightarrow> (case time_Parse E text of
                                None \<Rightarrow> False
                              | Some until \<Rightarrow> dTime sn > until)) then False
      else True)"

definition convertSnapshot :: "'d env \<Rightarrow> snapshot \<Rightarrow> Snapshot" where
  "convertSnapshot E sn =
     \<lparr>ID = id_Str E (dID sn), Time_s = time_Format E (dTime sn), Tree_s = id_Str E (dTree sn),
      Paths_s = dPaths sn, Hostname_s = dHostname sn, Username_s = dUsername sn,
      Tags_s = dTags sn,
      Parent_s = (case dParent sn of None \<Rightarrow> None | Some parent \<Rightarrow> Some (id_Str E parent))\<rparr>"

text \<open>
  The callback that \<^verbatim>\<open>Snapshots\<close> and \<^verbatim>\<open>Forget\<close> give to \<^verbatim>\<open>List\<close>: a snapshot that fails
  to load is skipped.
\<close>

fun load_loop :: "(string \<rightharpoonup> snapshot) \<Rightarrow> string list \<Rightarrow> snapshot list \<Rightarrow> snapshot list" where
  "load_loop ld [] allSnapshots = allSnapshots"
| "load_loop ld (ident # ids) allSnapshots =
     (case ld ident of
        None \<Rightarrow> load_loop ld ids allSnapshots
      | Some sn \<Rightarrow> load_loop ld ids (allSnapshots @ [sn]))"

definition load_snapshots :: "repo \<Rightarrow> lib_error + snapshot list" where
  "load_snapshots r =
     (case snapshot_listing r of
        (ids, err) \<Rightarrow>
          (let allSnapshots = load_loop (stored_snapshots r) ids []
           in case err of
                Some e \<Rightarrow> Inl (Failed_to_list_snapshots e)
              | None \<Rightarrow> Inr allSnapshots))"

definition newest_first :: "snapshot \<Rightarrow> snapshot \<Rightarrow> bool" where
  "newest_first a b \<longleftrightarrow> dTime a > dTime b"

definition apply_limit :: "int \<Rightarrow> 'a list \<Rightarrow> 'a list" where
  "apply_limit limit xs =
     (if limit > 0 \<and> int (length xs) > limit then take (nat limit) xs else xs)"

definition Snapshots :: "'d env \<Rightarrow> repo \<Rightarrow> SnapshotFilter \<Rightarrow> lib_error + Snapshot list" where
  "Snapshots E r f =
     (case load_snapshots r of
        Inl err \<Rightarrow> Inl err
      | Inr allSnapshots \<Rightarrow>
          (let filteredSnapshots = filter (\<lambda>sn. matchesFilter E sn f) allSnapshots;
               sortedSnapshots = sort_Slice E newest_first filteredSnapshots;
               limited = apply_limit (Limit f) sortedSnapshots
           in Inr (map (convertSnapshot E) limited)))"

text \<open>
  The list operation as the specification words it: the matching snapshots, sorted by
  time descending with a stable sort, truncated to the limit when the limit is
  positive.  \<open>sort_key\<close> is the stable insertion sort.
\<close>

definition Snapshots_spec :: "'d env \<Rightarrow> repo \<Rightarrow> SnapshotFilter \<Rightarrow> lib_error + Snapshot list" where
  "Snapshots_spec E r f =
     (case load_snapshots r of
        Inl err \<Rightarrow> Inl err
      | Inr allSnapshots \<Rightarrow>
          (let matching = filter (\<lambda>sn. matchesFilter E sn f) allSnapshots;
               stable = sort_key (\<lambda>sn. - dTime sn) matching
           in Inr (map (convertSnapshot E)
                     (if Limit f > 0 then take (nat (Limit f)) stable else stable))))"

text \<open>
  What the documentation of \<^verbatim>\<open>sort.Slice\<close> promises for a comparison \<open>lt\<close> (its
  \<^verbatim>\<open>less\<close> argument): the result is a rearrangement of the input in which no element is
  \<open>lt\<close> an earlier one.  The order of elements that are not \<open>lt\<close> either way is not
  promised.
\<close>

definition sort_Slice_contract :: "(('a \<Rightarrow> 'a \<Rightarrow> bool) \<Rightarrow> 'a list \<Rightarrow> 'a list) \<Rightarrow> ('a \<Rightarrow> 'a \<Rightarrow> bool) \<Rightarrow> bool" where
  "sort_Slice_contract srt lt \<longleftrightarrow>
     (\<forall>xs. mset (srt lt xs) = mset xs \<and> sorted_wrt (\<lambda>a b. \<not> lt b a) (srt lt xs))"

section \<open>Forget and Prune\<close>

text \<open>
  The conversion of the policy at the head of the loop body.  It does not depend on
  the group: a malformed \<^verbatim>\<open>KeepWithin\<close> ends \<^verbatim>\<open>Forget\<close> in the first iteration.
\<close>

definition internal_policy :: "'d env \<Rightarrow> ForgetPolicy \<Rightarrow> lib_error + 'd ExpirePolicy" where
  "internal_policy E policy =
     (let internalPolicy =
            \<lparr>Last = KeepLast policy, Hourly = KeepHourly policy, Daily = KeepDaily policy,
             Weekly = KeepWeekly policy, Monthly = KeepMonthly policy, Yearly = KeepYearly policy,
             Within = None,
             pTags = (if length (KeepTags policy) > 0 then [KeepTags policy] else [])\<rparr>
      in case KeepWithin policy of
           None \<Rightarrow> Inr internalPolicy
         | Some text \<Rightarrow>
             (case ParseDuration E text of
                Inl err \<Rightarrow> Inl (Invalid_keep_within text err)
              | Inr within \<Rightarrow> Inr (internalPolicy\<lparr>Within := Some within\<rparr>)))"

text \<open>The removal loop: a failed removal is logged and the loop goes on.\<close>

fun remove_loop :: "repo \<Rightarrow> snapshot list \<Rightarrow> string list \<Rightarrow> repo \<times> string list" where
  "remove_loop r [] removedIDs = (r, removedIDs)"
| "remove_loop r (sn # sns) removedIDs =
     (case RemoveUnpacked r (dID sn) of
        (Some err, r') \<Rightarrow> remove_loop r' sns removedIDs
      | (None, r') \<Rightarrow> remove_loop r' sns (removedIDs @ [dID sn]))"

text \<open>
  The loop over the groups.  The result is the error or the list \<^verbatim>\<open>removedIDs\<close>,
  together with the repository as the removals so far have left it.
\<close>

fun forget_groups :: "'d env \<Rightarrow> ForgetPolicy \<Rightarrow> snapshot list list \<Rightarrow> repo \<Rightarrow> string list \<Rightarrow>
    (lib_error + string list) \<times> repo" where
  "forget_groups E policy [] r removedIDs = (Inr removedIDs, r)"
| "forget_groups E policy (grp # grps) r removedIDs =
     (case internal_policy E policy of
        Inl err \<Rightarrow> (Inl err, r)
      | Inr internalPolicy \<Rightarrow>
          (case ApplyPolicy E grp internalPolicy of
             (keep, remove) \<Rightarrow>
               if length keep = 0 \<and> length remove > 0
               then forget_groups E policy grps r removedIDs
               else (case remove_loop r remove removedIDs of
                       (r', removedIDs') \<Rightarrow> forget_groups E policy grps r' removedIDs')))"

definition Forget :: "'d env \<Rightarrow> repo \<Rightarrow> ForgetPolicy \<Rightarrow> (lib_error + string list) \<times> repo" where
  "Forget E r policy =
     (if Empty policy then (Inl Forget_policy_empty, r)
      else (case load_snapshots r of
              Inl err \<Rightarrow> (Inl err, r)
            | Inr allSnapshots \<Rightarrow>
                (case GroupSnapshots E allSnapshots of
                   Inl err \<Rightarrow> (Inl (Failed_to_group_snapshots err), r)
                 | Inr grps \<Rightarrow> forget_groups E policy grps r [])))"

definition empty_report :: PruneReport where
  "empty_report = \<lparr>PacksDeleted = 0, PacksKept = 0, PacksRepacked = 0, BytesDeleted = 0, BytesRepacked = 0\<rparr>"

text \<open>The callback of \<^verbatim>\<open>performPrune\<close> adds one to \<^verbatim>\<open>report.PacksKept\<close> for each pack file.\<close>

fun count_packs :: "string list \<Rightarrow> PruneReport \<Rightarrow> PruneReport" where
  "count_packs [] report = report"
| "count_packs (ident # ids) report = count_packs ids (report\<lparr>PacksKept := PacksKept report + 1\<rparr>)"

definition performPrune :: "repo \<Rightarrow> PruneOptions \<Rightarrow> PruneReport \<times> string option" where
  "performPrune r opts =
     (case pack_listing r of
        (ids, err) \<Rightarrow> (count_packs ids empty_report, err))"

definition Prune :: "repo \<Rightarrow> PruneOptions \<Rightarrow> PruneReport \<times> lib_error option" where
  "Prune r opts =
     (case index_error r of
        Some err \<Rightarrow> (empty_report, Some (Failed_to_load_index err))
      | None \<Rightarrow>
          (case performPrune r opts of
             (stats, Some err) \<Rightarrow> (empty_report, Some (Prune_failed err))
           | (stats, None) \<Rightarrow> (stats, None)))"

section \<open>Integrity check (check.go)\<close>

text \<open>Appending one formatted error to the report clears \<^verbatim>\<open>Success\<close>.\<close>

fun record_errors :: "string \<Rightarrow> string list \<Rightarrow> CheckReport \<Rightarrow> CheckReport" where
  "record_errors label [] report = report"
| "record_errors label (err # errs) report =
     record_errors label errs (report\<lparr>Errors := Errors report @ [label @ err], Success := False\<rparr>)"

fun record_warnings :: "string list \<Rightarrow> CheckReport \<Rightarrow> CheckReport" where
  "record_warnings [] report = report"
| "record_warnings (hint # hints) report =
     record_warnings hints (report\<lparr>Warnings := Warnings report @ [hint]\<rparr>)"

definition Check :: "repo \<Rightarrow> string \<Rightarrow> CheckReport \<times> lib_error option" where
  "Check r depth =
     (let report = \<lparr>Errors = [], Warnings = [], Success = True\<rparr>
      in case index_error r of
           Some err \<Rightarrow>
             (report\<lparr>Errors := Errors report @ [''failed to load index: '' @ err], Success := False\<rparr>,
              Some (Collaborator err))
         | None \<Rightarrow>
             (case checker_index r of
                (hints, errs) \<Rightarrow>
                  (let report1 = record_warnings hints report;
                       report2 = record_errors [] errs report1
                   in if length errs > 0 then (report2, Some Index_check_failed)
                      else
                        (let report3 = record_errors ''pack error: '' (checker_packs r) report2;
                             report4 = (if depth = CheckDepthReadData
                                        then record_errors ''data error: '' (checker_data r) report3
                                        else report3)
                         in (report4, None)))))"

section \<open>The C bridge: error codes and the handle registry\<close>

text \<open>
  \<^verbatim>\<open>C.int\<close> is a 32-bit signed integer (read with \<open>sint\<close>); \<^verbatim>\<open>ResticRepo\<close> is Go's
  \<^verbatim>\<open>uintptr\<close>, taken at its 64-bit width.  \<^verbatim>\<open>C.int(repoID)\<close> keeps the low 32 bits
  (\<open>ucast\<close>); \<^verbatim>\<open>ResticRepo(repo_id)\<close> sign-extends (\<open>scast\<close>).
\<close>

type_synonym cint = "32 word"
type_synonym ResticRepo = "64 word"

definition RESTIC_OK :: cint where "RESTIC_OK = 0"
definition RESTIC_ERROR_INVALID_PARAMS :: cint where "RESTIC_ERROR_INVALID_PARAMS = - 1"
definition RESTIC_ERROR_REPO_NOT_FOUND :: cint where "RESTIC_ERROR_REPO_NOT_FOUND = - 2"
definition RESTIC_ERROR_INVALID_PASSWORD :: cint where "RESTIC_ERROR_INVALID_PASSWORD = - 3"
definition RESTIC_ERROR_BACKUP_FAILED :: cint where "RESTIC_ERROR_BACKUP_FAILED = - 4"
definition RESTIC_ERROR_RESTORE_FAILED :: cint where "RESTIC_ERROR_RESTORE_FAILED = - 5"
definition RESTIC_ERROR_UNKNOWN :: cint where "RESTIC_ERROR_UNKNOWN = - 99"

record Credentials =
  AccessKey :: string
  SecretKey :: string

record Config =
  RepoURL :: string
  Backend :: string
  Password :: string
  Parallelism :: int
  Credentials :: "Credentials option"

text \<open>
  The registry stores values of the Go interface \<^verbatim>\<open>resticlib.Repository\<close>.  The methods
  the bridge calls are a table over the session type \<open>'r\<close>; an error is a \<open>lib_error\<close>.
\<close>

record 'r Repository =
  Backup_m :: "'r \<Rightarrow> BackupOptions \<Rightarrow> lib_error + string"
  Restore_m :: "'r \<Rightarrow> string \<Rightarrow> RestoreOptions \<Rightarrow> lib_error option"
  Snapshots_m :: "'r \<Rightarrow> SnapshotFilter \<Rightarrow> lib_error + Snapshot list"
  Check_m :: "'r \<Rightarrow> string \<Rightarrow> CheckReport \<times> lib_error option"
  Close_m :: "'r \<Rightarrow> lib_error option"

text \<open>The two package-level variables \<^verbatim>\<open>repositories\<close> and \<^verbatim>\<open>nextRepoID\<close>.\<close>

record 'r registry =
  repositories :: "ResticRepo \<rightharpoonup> 'r"
  nextRepoID :: ResticRepo

definition initial_registry :: "'r registry" where
  "initial_registry = \<lparr>repositories = Map.empty, nextRepoID = 1\<rparr>"

text \<open>
  \<^verbatim>\<open>resticlib.Init\<close> and \<^verbatim>\<open>resticlib.Open\<close> reject an empty password and then build the
  backend and the repository; that second part is the parameter \<open>connect\<close>.
\<close>

definition Init :: "(Config \<Rightarrow> lib_error + 'r) \<Rightarrow> Config \<Rightarrow> lib_error + 'r" where
  "Init connect cfg =
     (if length (Password cfg) = 0 then Inl Password_required else connect cfg)"

definition Open :: "(Config \<Rightarrow> lib_error + 'r) \<Rightarrow> Config \<Rightarrow> lib_error + 'r" where
  "Open connect cfg =
     (if length (Password cfg) = 0 then Inl Password_required else connect cfg)"

definition make_config :: "string \<Rightarrow> string \<Rightarrow> string \<Rightarrow> string option \<Rightarrow> string option \<Rightarrow> cint \<Rightarrow> Config" where
  "make_config repo_url backend password access_key secret_key parallelism =
     \<lparr>RepoURL = repo_url, Backend = backend, Password = password,
      Parallelism = sint parallelism,
      Credentials = (case (access_key, secret_key) of
                       (Some a, Some k) \<Rightarrow> Some \<lparr>AccessKey = a, SecretKey = k\<rparr>
                     | _ \<Rightarrow> None)\<rparr>"

text \<open>
  The last four statements of \<^verbatim>\<open>restic_init\<close> and of \<^verbatim>\<open>restic_open\<close>:
  \<^verbatim>\<open>repoID := nextRepoID; nextRepoID++; repositories[repoID] = repo; return C.int(repoID)\<close>.
\<close>

definition register :: "'r registry \<Rightarrow> 'r \<Rightarrow> cint \<times> 'r registry" where
  "register s repo =
     (let repoID = nextRepoID s
      in (ucast repoID,
          s\<lparr>nextRepoID := repoID + 1, repositories := (repositories s)(repoID \<mapsto> repo)\<rparr>))"

text \<open>A \<^verbatim>\<open>*C.char\<close> argument is \<open>None\<close> when the pointer is \<^verbatim>\<open>NULL\<close>.\<close>

definition restic_init ::
  "(Config \<Rightarrow> lib_error + 'r) \<Rightarrow> 'r registry \<Rightarrow> string option \<Rightarrow> string option \<Rightarrow> string option \<Rightarrow>
   string option \<Rightarrow> string option \<Rightarrow> cint \<Rightarrow> cint \<times> 'r registry" where
  "restic_init connect s repo_url backend password access_key secret_key parallelism =
     (case (repo_url, backend, password) of
        (Some u, Some b, Some p) \<Rightarrow>
          (case Init connect (make_config u b p access_key secret_key parallelism) of
             Inl err \<Rightarrow> (RESTIC_ERROR_REPO_NOT_FOUND, s)
           | Inr repo \<Rightarrow> register s repo)
      | _ \<Rightarrow> (RESTIC_ERROR_INVALID_PARAMS, s))"

definition restic_open ::
  "(Config \<Rightarrow> lib_error + 'r) \<Rightarrow> 'r registry \<Rightarrow> string option \<Rightarrow> string option \<Rightarrow> string option \<Rightarrow>
   string option \<Rightarrow> string option \<Rightarrow> cint \<Rightarrow> cint \<times> 'r registry" where
  "restic_open connect s repo_url backend password access_key secret_key parallelism =
     (case (repo_url, backend, password) of
        (Some u, Some b, Some p) \<Rightarrow>
          (case Open connect (make_config u b p access_key secret_key parallelism) of
             Inl err \<Rightarrow> (RESTIC_ERROR_INVALID_PASSWORD, s)
           | Inr repo \<Rightarrow> register s repo)
      | _ \<Rightarrow> (RESTIC_ERROR_INVALID_PARAMS, s))"

text \<open>
  A \<^verbatim>\<open>**C.char\<close> argument is \<open>None\<close> when \<^verbatim>\<open>NULL\<close>, and otherwise the memory behind it
  as a function from the index to the string stored there; the bridge reads the first
  \<open>n\<close> entries.  The output parameter \<^verbatim>\<open>snapshot_id_out\<close> is the second component:
  \<open>None\<close> when nothing is written.
\<close>

definition read_strings :: "(nat \<Rightarrow> string) \<Rightarrow> cint \<Rightarrow> string list" where
  "read_strings arr n = map arr [0 ..< nat (sint n)]"

definition restic_backup ::
  "'r Repository \<Rightarrow> 'r registry \<Rightarrow> cint \<Rightarrow> (nat \<Rightarrow> string) option \<Rightarrow> cint \<Rightarrow>
   (nat \<Rightarrow> string) option \<Rightarrow> cint \<Rightarrow> (cint \<times> string option) \<times> 'r registry" where
  "restic_backup ops s repo_id paths paths_count tags tags_count =
     (case repositories s (scast repo_id) of
        None \<Rightarrow> ((RESTIC_ERROR_INVALID_PARAMS, None), s)
      | Some repo \<Rightarrow>
          (case paths of
             None \<Rightarrow> ((RESTIC_ERROR_INVALID_PARAMS, None), s)
           | Some cPaths \<Rightarrow>
               if sint paths_count \<le> 0 then ((RESTIC_ERROR_INVALID_PARAMS, None), s)
               else
                 (let pathSlice = read_strings cPaths paths_count;
                      tagSlice = (case tags of
                                    Some cTags \<Rightarrow> if sint tags_count > 0
                                                  then read_strings cTags tags_count else []
                                  | None \<Rightarrow> []);
                      backupOpts = \<lparr>Paths = pathSlice, Tags = tagSlice, Excludes = [], Includes = []\<rparr>
                  in case Backup_m ops repo backupOpts of
                       Inl err \<Rightarrow> ((RESTIC_ERROR_BACKUP_FAILED, None), s)
                     | Inr snapshotID \<Rightarrow> ((RESTIC_OK, Some snapshotID), s))))"

definition restic_restore ::
  "'r Repository \<Rightarrow> 'r registry \<Rightarrow> cint \<Rightarrow> string option \<Rightarrow> string option \<Rightarrow> cint \<times> 'r registry" where
  "restic_restore ops s repo_id snapshot_id target_dir =
     (case repositories s (scast repo_id) of
        None \<Rightarrow> (RESTIC_ERROR_INVALID_PARAMS, s)
      | Some repo \<Rightarrow>
          (case (snapshot_id, target_dir) of
             (Some sid, Some dir) \<Rightarrow>
               (let restoreOpts = \<lparr>TargetDir = dir, rIncludes = [], rExcludes = [],
                                  Overwrite = True, Delete = False, DryRun = False\<rparr>
                in case Restore_m ops repo sid restoreOpts of
                     Some err \<Rightarrow> (RESTIC_ERROR_RESTORE_FAILED, s)
                   | None \<Rightarrow> (RESTIC_OK, s))
           | _ \<Rightarrow> (RESTIC_ERROR_INVALID_PARAMS, s)))"

text \<open>
  The outputs of \<^verbatim>\<open>restic_list_snapshots\<close>: the three arrays (written together, or not
  at all) and \<^verbatim>\<open>*count_out\<close>.
\<close>

definition restic_list_snapshots ::
  "'r Repository \<Rightarrow> 'r registry \<Rightarrow> cint \<Rightarrow>
   (cint \<times> (string list \<times> string list \<times> string list) option \<times> cint option) \<times> 'r registry" where
  "restic_list_snapshots ops s repo_id =
     (case repositories s (scast repo_id) of
        None \<Rightarrow> ((RESTIC_ERROR_INVALID_PARAMS, None, None), s)
      | Some repo \<Rightarrow>
          (case Snapshots_m ops repo empty_filter of
             Inl err \<Rightarrow> ((RESTIC_ERROR_UNKNOWN, None, None), s)
           | Inr snapshots \<Rightarrow>
               if length snapshots = 0 then ((RESTIC_OK, None, Some 0), s)
               else ((RESTIC_OK,
                      Some (map ID snapshots, map Time_s snapshots, map Hostname_s snapshots),
                      Some (word_of_nat (length snapshots))), s)))"

text \<open>\<^verbatim>\<open>*errors_out = C.int(len(report.Errors))\<close> is the second component.\<close>

definition restic_check :: "'r Repository \<Rightarrow> 'r registry \<Rightarrow> cint \<Rightarrow> (cint \<times> cint option) \<times> 'r registry" where
  "restic_check ops s repo_id =
     (case repositories s (scast repo_id) of
        None \<Rightarrow> ((RESTIC_ERROR_INVALID_PARAMS, None), s)
      | Some repo \<Rightarrow>
          (case Check_m ops repo CheckDepthDefault of
             (report, Some err) \<Rightarrow> ((RESTIC_ERROR_UNKNOWN, None), s)
           | (report, None) \<Rightarrow> ((RESTIC_OK, Some (word_of_nat (length (Errors report)))), s)))"

definition restic_close :: "'r Repository \<Rightarrow> 'r registry \<Rightarrow> cint \<Rightarrow> cint \<times> 'r registry" where
  "restic_close ops s repo_id =
     (case repositories s (scast repo_id) of
        None \<Rightarrow> (RESTIC_ERROR_INVALID_PARAMS, s)
      | Some repo \<Rightarrow>
          (let closed = Close_m ops repo
           in (RESTIC_OK, s\<lparr>repositories := (repositories s)(scast repo_id := None)\<rparr>)))"

subsection \<open>Histories of the registry\<close>

text \<open>
  Only a successful \<^verbatim>\<open>restic_init\<close>/\<^verbatim>\<open>restic_open\<close> and \<^verbatim>\<open>restic_close\<close> change the
  registry.  A history is a list of such calls; \<open>run_calls\<close> executes it and keeps, next
  to the registry, the set of handle values that have been issued and not destroyed
  since.
\<close>

datatype 'r call = Created 'r | Closing cint

fun run_calls :: "'r Repository \<Rightarrow> 'r registry \<times> cint set \<Rightarrow> 'r call list \<Rightarrow> 'r registry \<times> cint set" where
  "run_calls ops (s, issued) [] = (s, issued)"
| "run_calls ops (s, issued) (Created repo # cs) =
     (case register s repo of (h, s') \<Rightarrow> run_calls ops (s', insert h issued) cs)"
| "run_calls ops (s, issued) (Closing h # cs) =
     (case restic_close ops s h of
        (rc, s') \<Rightarrow> run_calls ops (s', if rc = RESTIC_OK then issued - {h} else issued) cs)"

section \<open>The algorithm of \<^verbatim>\<open>sort.Slice\<close>\<close>

text \<open>
  \<^verbatim>\<open>sort.Slice\<close> belongs to the Go standard library, not to the repository.  Since Go 1.19
  it is the pattern-defeating quicksort \<^verbatim>\<open>pdqsort_func\<close> of \<^verbatim>\<open>sort/zsortfunc.go\<close>, followed
  here function by function.  The slice is a list, an index a Go \<^verbatim>\<open>int\<close>;
  \<^verbatim>\<open>data.Less(i, j)\<close> applies the comparison to the elements at \<open>i\<close> and \<open>j\<close>, and
  \<^verbatim>\<open>data.Swap(i, j)\<close> exchanges them.  The algorithm keeps its indices inside the slice.
  Go's integer division truncates (\<open>quo\<close>).  The step of the pseudo-random generator
  that \<^verbatim>\<open>breakPatterns_func\<close> draws from is a parameter \<open>rnd\<close>.
\<close>

datatype sortedHint = unknownHint | increasingHint | decreasingHint

definition data_Less :: "('a \<Rightarrow> 'a \<Rightarrow> bool) \<Rightarrow> 'a list \<Rightarrow> int \<Rightarrow> int \<Rightarrow> bool" where
  "data_Less lt data i j = lt (data ! nat i) (data ! nat j)"

definition data_Swap :: "'a list \<Rightarrow> int \<Rightarrow> int \<Rightarrow> 'a list" where
  "data_Swap data i j = data[nat i := data ! nat j, nat j := data ! nat i]"

definition quo :: "int \<Rightarrow> int \<Rightarrow> int" where
  "quo x y = sgn x * sgn y * (\<bar>x\<bar> div \<bar>y\<bar>)"

text \<open>\<^verbatim>\<open>insertionSort_func\<close>: the inner loop over \<open>j\<close> and the outer loop over \<open>i\<close>.\<close>

function insertion_inner :: "('a \<Rightarrow> 'a \<Rightarrow> bool) \<Rightarrow> int \<Rightarrow> int \<Rightarrow> 'a list \<Rightarrow> 'a list" where
  "insertion_inner lt a j data =
     (if j > a \<and> data_Less lt data j (j - 1)
      then insertion_inner lt a (j - 1) (data_Swap data j (j - 1))
      else data)"
  by pat_completeness auto
termination
  by (relation "measure (\<lambda>(lt, a, j, data). nat (j - a))") auto

declare insertion_inner.simps [simp del]

function insertion_outer :: "('a \<Rightarrow> 'a \<Rightarrow> bool) \<Rightarrow> int \<Rightarrow> int \<Rightarrow> int \<Rightarrow> 'a list \<Rightarrow> 'a list" where
  "insertion_outer lt a b i data =
     (if i < b then insertion_outer lt a b (i + 1) (insertion_inner lt a i data) else data)"
  by pat_completeness auto
termination
  by (relation "measure (\<lambda>(lt, a, b, i, data). nat (b - i))") auto

declare insertion_outer.simps [simp del]

definition insertionSort_func :: "('a \<Rightarrow> 'a \<Rightarrow> bool) \<Rightarrow> 'a list \<Rightarrow> int \<Rightarrow> int \<Rightarrow> 'a list" where
  "insertionSort_func lt data a b = insertion_outer lt a b (a + 1) data"

text \<open>
  \<^verbatim>\<open>siftDown_func\<close> and \<^verbatim>\<open>heapSort_func\<close>.  \<^verbatim>\<open>siftDown_func\<close> is only entered with a root
  that is not negative; the test \<open>root < 0\<close> is there for the termination proof.
\<close>

function siftDown_func :: "('a \<Rightarrow> 'a \<Rightarrow> bool) \<Rightarrow> 'a list \<Rightarrow> int \<Rightarrow> int \<Rightarrow> int \<Rightarrow> 'a list" where
  "siftDown_func lt data root hi first =
     (let child = 2 * root + 1
      in if child \<ge> hi \<or> root < 0 then data
         else (let child' = (if child + 1 < hi \<and> data_Less lt data (first + child) (first + child + 1)
                             then child + 1 else child)
               in if \<not> data_Less lt data (first + root) (first + child') then data
                  else siftDown_func lt (data_Swap data (first + root) (first + child')) child' hi first))"
  by pat_completeness auto
termination
  by (relation "measure (\<lambda>(lt, data, root, hi, first). nat (hi - root))") (auto simp: Let_def)

declare siftDown_func.simps [simp del]

function heap_build :: "('a \<Rightarrow> 'a \<Rightarrow> bool) \<Rightarrow> int \<Rightarrow> int \<Rightarrow> int \<Rightarrow> 'a list \<Rightarrow> 'a list" where
  "heap_build lt hi first i data =
     (if i \<ge> 0 then heap_build lt hi first (i - 1) (siftDown_func lt data i hi first) else data)"
  by pat_completeness auto
termination
  by (relation "measure (\<lambda>(lt, hi, first, i, data). nat (i + 1))") auto

declare heap_build.simps [simp del]

function heap_pop :: "('a \<Rightarrow> 'a \<Rightarrow> bool) \<Rightarrow> int \<Rightarrow> int \<Rightarrow> int \<Rightarrow> 'a list \<Rightarrow> 'a list" where
  "heap_pop lt lo first i data =
     (if i \<ge> 0
      then heap_pop lt lo first (i - 1) (siftDown_func lt (data_Swap data first (first + i)) lo i first)
      else data)"
  by pat_completeness auto
termination
  by (relation "measure (\<lambda>(lt, lo, first, i, data). nat (i + 1))") auto

declare heap_pop.simps [simp del]

definition heapSort_func :: "('a \<Rightarrow> 'a \<Rightarrow> bool) \<Rightarrow> 'a list \<Rightarrow> int \<Rightarrow> int \<Rightarrow> 'a list" where
  "heapSort_func lt data a b =
     (let first = a; lo = 0; hi = b - a;
          data1 = heap_build lt hi first (quo (hi - 1) 2) data
      in heap_pop lt lo first (hi - 1) data1)"

text \<open>
  \<^verbatim>\<open>breakPatterns_func\<close>: three swaps around the middle with indices drawn from the
  generator, seeded with the length; \<^verbatim>\<open>bits.Len\<close> and \<^verbatim>\<open>nextPowerOfTwo\<close>.
\<close>

fun bits_Len :: "nat \<Rightarrow> nat" where
  "bits_Len n = (if n = 0 then 0 else Suc (bits_Len (n div 2)))"

definition nextPowerOfTwo :: "int \<Rightarrow> int" where
  "nextPowerOfTwo len = 2 ^ bits_Len (nat len)"

fun break_swaps :: "(64 word \<Rightarrow> 64 word) \<Rightarrow> int \<Rightarrow> int \<Rightarrow> int \<Rightarrow> int \<Rightarrow> int list \<Rightarrow> 64 word \<Rightarrow> 'a list \<Rightarrow> 'a list" where
  "break_swaps rnd a len modulus idx [] random data = data"
| "break_swaps rnd a len modulus idx (i # is) random data =
     (let random' = rnd random;
          other = uint random' mod modulus;
          other' = (if other \<ge> len then other - len else other)
      in break_swaps rnd a len modulus idx is random' (data_Swap data (idx - 1 + i) (a + other')))"

definition breakPatterns_func :: "(64 word \<Rightarrow> 64 word) \<Rightarrow> 'a list \<Rightarrow> int \<Rightarrow> int \<Rightarrow> 'a list" where
  "breakPatterns_func rnd data a b =
     (let len = b - a
      in if len \<ge> 8
         then break_swaps rnd a len (nextPowerOfTwo len) (a + quo len 4 * 2 - 1) [0, 1, 2]
                (word_of_int len) data
         else data)"

text \<open>
  \<^verbatim>\<open>choosePivot_func\<close> with \<^verbatim>\<open>order2_func\<close>, \<^verbatim>\<open>median_func\<close> and \<^verbatim>\<open>medianAdjacent_func\<close>; the
  counter \<^verbatim>\<open>swaps\<close> is passed along.  \<^verbatim>\<open>shortestNinther\<close> is 50 and \<^verbatim>\<open>maxSwaps\<close> is 12.
\<close>

definition order2_func :: "('a \<Rightarrow> 'a \<Rightarrow> bool) \<Rightarrow> 'a list \<Rightarrow> int \<Rightarrow> int \<Rightarrow> int \<Rightarrow> int \<times> int \<times> int" where
  "order2_func lt data a b swaps =
     (if data_Less lt data b a then (b, a, swaps + 1) else (a, b, swaps))"

definition median_func :: "('a \<Rightarrow> 'a \<Rightarrow> bool) \<Rightarrow> 'a list \<Rightarrow> int \<Rightarrow> int \<Rightarrow> int \<Rightarrow> int \<Rightarrow> int \<times> int" where
  "median_func lt data a b c swaps =
     (case order2_func lt data a b swaps of
        (a1, b1, swaps1) \<Rightarrow>
          (case order2_func lt data b1 c swaps1 of
             (b2, c2, swaps2) \<Rightarrow>
               (case order2_func lt data a1 b2 swaps2 of
                  (a3, b3, swaps3) \<Rightarrow> (b3, swaps3))))"

definition medianAdjacent_func :: "('a \<Rightarrow> 'a \<Rightarrow> bool) \<Rightarrow> 'a list \<Rightarrow> int \<Rightarrow> int \<Rightarrow> int \<times> int" where
  "medianAdjacent_func lt data a swaps = median_func lt data (a - 1) a (a + 1) swaps"

definition choosePivot_func :: "('a \<Rightarrow> 'a \<Rightarrow> bool) \<Rightarrow> 'a list \<Rightarrow> int \<Rightarrow> int \<Rightarrow> int \<times> sortedHint" where
  "choosePivot_func lt data a b =
     (let l = b - a;
          i = a + quo l 4 * 1;
          j = a + quo l 4 * 2;
          k = a + quo l 4 * 3;
          (j', swaps) =
            (if l \<ge> 8
             then (if l \<ge> 50
                   then (case medianAdjacent_func lt data i 0 of
                           (i1, s1) \<Rightarrow>
                             (case medianAdjacent_func lt data j s1 of
                                (j1, s2) \<Rightarrow>
                                  (case medianAdjacent_func lt data k s2 of
                                     (k1, s3) \<Rightarrow> median_func lt data i1 j1 k1 s3)))
                   else median_func lt data i j k 0)
             else (j, 0))
      in if swaps = 0 then (j', increasingHint)
         else if swaps = 12 then (j', decreasingHint)
         else (j', unknownHint))"

text \<open>\<^verbatim>\<open>reverseRange_func\<close>.\<close>

function reverse_loop :: "'a list \<Rightarrow> int \<Rightarrow> int \<Rightarrow> 'a list" where
  "reverse_loop data i j = (if i < j then reverse_loop (data_Swap data i j) (i + 1) (j - 1) else data)"
  by pat_completeness auto
termination
  by (relation "measure (\<lambda>(data, i, j). nat (j - i))") auto

declare reverse_loop.simps [simp del]

definition reverseRange_func :: "'a list \<Rightarrow> int \<Rightarrow> int \<Rightarrow> 'a list" where
  "reverseRange_func data a b = reverse_loop data a (b - 1)"

text \<open>
  \<^verbatim>\<open>partialInsertionSort_func\<close>: at most five rounds (\<^verbatim>\<open>maxSteps\<close>); a round skips the
  ordered prefix, returns \<^verbatim>\<open>true\<close> at the end of the slice, gives up on a slice shorter
  than 50 (\<^verbatim>\<open>shortestShifting\<close>), and otherwise swaps the pair and shifts its
  elements to the left and to the right.
\<close>

function skip_ordered :: "('a \<Rightarrow> 'a \<Rightarrow> bool) \<Rightarrow> 'a list \<Rightarrow> int \<Rightarrow> int \<Rightarrow> int" where
  "skip_ordered lt data b i =
     (if i < b \<and> \<not> data_Less lt data i (i - 1) then skip_ordered lt data b (i + 1) else i)"
  by pat_completeness auto
termination
  by (relation "measure (\<lambda>(lt, data, b, i). nat (b - i))") auto

declare skip_ordered.simps [simp del]

function shift_left :: "('a \<Rightarrow> 'a \<Rightarrow> bool) \<Rightarrow> int \<Rightarrow> 'a list \<Rightarrow> 'a list" where
  "shift_left lt j data =
     (if j \<ge> 1 \<and> data_Less lt data j (j - 1) then shift_left lt (j - 1) (data_Swap data j (j - 1)) else data)"
  by pat_completeness auto
termination
  by (relation "measure (\<lambda>(lt, j, data). nat j)") auto

declare shift_left.simps [simp del]

function shift_right :: "('a \<Rightarrow> 'a \<Rightarrow> bool) \<Rightarrow> int \<Rightarrow> int \<Rightarrow> 'a list \<Rightarrow> 'a list" where
  "shift_right lt b j data =
     (if j < b \<and> data_Less lt data j (j - 1) then shift_right lt b (j + 1) (data_Swap data j (j - 1)) else data)"
  by pat_completeness auto
termination
  by (relation "measure (\<lambda>(lt, b, j, data). nat (b - j))") auto

declare shift_right.simps [simp del]

fun partial_steps :: "('a \<Rightarrow> 'a \<Rightarrow> bool) \<Rightarrow> int \<Rightarrow> int \<Rightarrow> nat \<Rightarrow> int \<Rightarrow> 'a list \<Rightarrow> 'a list \<times> bool" where
  "partial_steps lt a b 0 i data = (data, False)"
| "partial_steps lt a b (Suc steps) i data =
     (let i' = skip_ordered lt data b i
      in if i' = b then (data, True)
         else if b - a < 50 then (data, False)
         else (let data1 = data_Swap data i' (i' - 1);
                   data2 = (if i' - a \<ge> 2 then shift_left lt (i' - 1) data1 else data1);
                   data3 = (if b - i' \<ge> 2 then shift_right lt b (i' + 1) data2 else data2)
               in partial_steps lt a b steps i' data3))"

definition partialInsertionSort_func :: "('a \<Rightarrow> 'a \<Rightarrow> bool) \<Rightarrow> 'a list \<Rightarrow> int \<Rightarrow> int \<Rightarrow> 'a list \<times> bool" where
  "partialInsertionSort_func lt data a b = partial_steps lt a b 5 (a + 1) data"

text \<open>
  The two scans of the partition functions: \<^verbatim>\<open>for i <= j && P(i) { i++ }\<close> and
  \<^verbatim>\<open>for i <= j && P(j) { j-- }\<close>.
\<close>

function move_up :: "(int \<Rightarrow> bool) \<Rightarrow> int \<Rightarrow> int \<Rightarrow> int" where
  "move_up P i j = (if i \<le> j \<and> P i then move_up P (i + 1) j else i)"
  by pat_completeness auto
termination
  by (relation "measure (\<lambda>(P, i, j). nat (j + 1 - i))") auto

declare move_up.simps [simp del]

function move_down :: "(int \<Rightarrow> bool) \<Rightarrow> int \<Rightarrow> int \<Rightarrow> int" where
  "move_down P i j = (if i \<le> j \<and> P j then move_down P i (j - 1) else j)"
  by pat_completeness auto
termination
  by (relation "measure (\<lambda>(P, i, j). nat (j + 1 - i))") auto

declare move_down.simps [simp del]

text \<open>\<^verbatim>\<open>partitionEqual_func\<close>: its loop returns the slice and \<open>i\<close>.\<close>

function partition_equal_loop :: "('a \<Rightarrow> 'a \<Rightarrow> bool) \<Rightarrow> int \<Rightarrow> 'a list \<Rightarrow> int \<Rightarrow> int \<Rightarrow> 'a list \<times> int" where
  "partition_equal_loop lt a data i j =
     (let i1 = move_up (\<lambda>i. \<not> data_Less lt data a i) i j;
          j1 = move_down (\<lambda>j. data_Less lt data a j) i1 j
      in if i1 > j1 then (data, i1)
         else partition_equal_loop lt a (data_Swap data i1 j1) (i1 + 1) (j1 - 1))"
  by pat_completeness auto
termination
proof (relation "measure (\<lambda>(lt, a, data, i, j). nat (j + 1 - i))", goal_cases)
  case 1
  then show ?case by simp
next
  case (2 lt a data i j i1 j1)
  have up: "i \<le> move_up P i j" for P :: "int \<Rightarrow> bool" and i j
  proof (induction P i j rule: move_up.induct)
    case (1 P i j)
    then show ?case by (subst move_up.simps) auto
  qed
  have down: "move_down P i j \<le> j" for P :: "int \<Rightarrow> bool" and i j
  proof (induction P i j rule: move_down.induct)
    case (1 P i j)
    then show ?case by (subst move_down.simps) auto
  qed
  have "i \<le> i1" using 2(1) by (simp add: up)
  moreover have "j1 \<le> j" using 2(2) by (simp add: down)
  ultimately show ?case using 2(3) by simp
qed

declare partition_equal_loop.simps [simp del]

definition partitionEqual_func :: "('a \<Rightarrow> 'a \<Rightarrow> bool) \<Rightarrow> 'a list \<Rightarrow> int \<Rightarrow> int \<Rightarrow> int \<Rightarrow> 'a list \<times> int" where
  "partitionEqual_func lt data a b pivot =
     partition_equal_loop lt a (data_Swap data a pivot) (a + 1) (b - 1)"

text \<open>
  \<^verbatim>\<open>partition_func\<close>: the first pair of scans, the early return when the slice is
  already partitioned, the loop (which returns the slice and \<open>j\<close>) and the final swap
  of the pivot.
\<close>

function partition_loop :: "('a \<Rightarrow> 'a \<Rightarrow> bool) \<Rightarrow> int \<Rightarrow> 'a list \<Rightarrow> int \<Rightarrow> int \<Rightarrow> 'a list \<times> int" where
  "partition_loop lt a data i j =
     (let i1 = move_up (\<lambda>i. data_Less lt data i a) i j;
          j1 = move_down (\<lambda>j. \<not> data_Less lt data j a) i1 j
      in if i1 > j1 then (data, j1)
         else partition_loop lt a (data_Swap data i1 j1) (i1 + 1) (j1 - 1))"
  by pat_completeness auto
termination
proof (relation "measure (\<lambda>(lt, a, data, i, j). nat (j + 1 - i))", goal_cases)
  case 1
  then show ?case by simp
next
  case (2 lt a data i j i1 j1)
  have up: "i \<le> move_up P i j" for P :: "int \<Rightarrow> bool" and i j
  proof (induction P i j rule: move_up.induct)
    case (1 P i j)
    then show ?case by (subst move_up.simps) auto
  qed
  have down: "move_down P i j \<le> j" for P :: "int \<Rightarrow> bool" and i j
  proof (induction P i j rule: move_down.induct)
    case (1 P i j)
    then show ?case by (subst move_down.simps) auto
  qed
  have "i \<le> i1" using 2(1) by (simp add: up)
  moreover have "j1 \<le> j" using 2(2) by (simp add: down)
  ultimately show ?case using 2(3) by simp
qed

declare partition_loop.simps [simp del]

definition partition_func :: "('a \<Rightarrow> 'a \<Rightarrow> bool) \<Rightarrow> 'a list \<Rightarrow> int \<Rightarrow> int \<Rightarrow> int \<Rightarrow> 'a list \<times> int \<times> bool" where
  "partition_func lt data a b pivot =
     (let data1 = data_Swap data a pivot;
          i = move_up (\<lambda>i. data_Less lt data1 i a) (a + 1) (b - 1);
          j = move_down (\<lambda>j. \<not> data_Less lt data1 j a) i (b - 1)
      in if i > j then (data_Swap data1 j a, j, True)
         else (case partition_loop lt a (data_Swap data1 i j) (i + 1) (j - 1) of
                 (data2, j2) \<Rightarrow> (data_Swap data2 j2 a, j2, False)))"

text \<open>
  \<^verbatim>\<open>pdqsort_func\<close>.  Its loop and its recursive call both go on with a shorter part of
  the slice; the model counts them down with a first argument and returns \<open>None\<close> when
  that count is used up.  \<^verbatim>\<open>maxInsertion\<close> is 12.  The recursive call starts with
  \<^verbatim>\<open>wasBalanced\<close> and \<^verbatim>\<open>wasPartitioned\<close> true.
\<close>

fun pdqsort_func ::
  "nat \<Rightarrow> (64 word \<Rightarrow> 64 word) \<Rightarrow> ('a \<Rightarrow> 'a \<Rightarrow> bool) \<Rightarrow> 'a list \<Rightarrow> int \<Rightarrow> int \<Rightarrow> int \<Rightarrow> bool \<Rightarrow> bool \<Rightarrow>
   'a list option" where
  "pdqsort_func 0 rnd lt data a b limit wasBalanced wasPartitioned = None"
| "pdqsort_func (Suc fuel) rnd lt data a b limit wasBalanced wasPartitioned =
     (let len = b - a
      in if len \<le> 12 then Some (insertionSort_func lt data a b)
         else if limit = 0 then Some (heapSort_func lt data a b)
         else
           (let data1 = (if \<not> wasBalanced then breakPatterns_func rnd data a b else data);
                limit1 = (if \<not> wasBalanced then limit - 1 else limit)
            in case choosePivot_func lt data1 a b of
                 (pivot0, hint0) \<Rightarrow>
                   (let data2 = (if hint0 = decreasingHint then reverseRange_func data1 a b else data1);
                        pivot = (if hint0 = decreasingHint then (b - 1) - (pivot0 - a) else pivot0);
                        hint = (if hint0 = decreasingHint then increasingHint else hint0)
                    in case (if wasBalanced \<and> wasPartitioned \<and> hint = increasingHint
                             then partialInsertionSort_func lt data2 a b else (data2, False)) of
                         (data3, True) \<Rightarrow> Some data3
                       | (data3, False) \<Rightarrow>
                           if a > 0 \<and> \<not> data_Less lt data3 (a - 1) pivot
                           then (case partitionEqual_func lt data3 a b pivot of
                                   (data4, mid) \<Rightarrow>
                                     pdqsort_func fuel rnd lt data4 mid b limit1 wasBalanced wasPartitioned)
                           else (case partition_func lt data3 a b pivot of
                                   (data4, mid, alreadyPartitioned) \<Rightarrow>
                                     (let leftLen = mid - a;
                                          rightLen = b - mid;
                                          balanceThreshold = quo len 8
                                      in if leftLen < rightLen
                                         then (case pdqsort_func fuel rnd lt data4 a mid limit1 True True of
                                                 None \<Rightarrow> None
                                               | Some data5 \<Rightarrow>
                                                   pdqsort_func fuel rnd lt data5 (mid + 1) b limit1
                                                     (leftLen \<ge> balanceThreshold) alreadyPartitioned)
                                         else (case pdqsort_func fuel rnd lt data4 (mid + 1) b limit1 True True of
                                                 None \<Rightarrow> None
                                               | Some data5 \<Rightarrow>
                                                   pdqsort_func fuel rnd lt data5 a mid limit1
                                                     (rightLen \<ge> balanceThreshold) alreadyPartitioned))))))"

text \<open>
  \<^verbatim>\<open>sort.Slice(x, less)\<close>: \<^verbatim>\<open>pdqsort_func\<close> on the whole slice with the limit
  \<^verbatim>\<open>bits.Len(uint(length))\<close>.  The count of rounds starts at one more than the length of
  the slice.
\<close>

definition go_sort_Slice :: "(64 word \<Rightarrow> 64 word) \<Rightarrow> ('a \<Rightarrow> 'a \<Rightarrow> bool) \<Rightarrow> 'a list \<Rightarrow> 'a list option" where
  "go_sort_Slice rnd lt x =
     pdqsort_func (Suc (length x)) rnd lt x 0 (int (length x)) (int (bits_Len (length x))) True True"

section \<open>Auxiliary definitions for the proofs and the instances\<close>

text \<open>
  The registry invariant behind the handle checks: a handle whose key is in the map is
  in the set of issued, not yet destroyed handles.
\<close>

definition issued_covers :: "'r registry \<times> cint set \<Rightarrow> bool" where
  "issued_covers st \<longleftrightarrow> (\<forall>h. repositories (fst st) (scast h) \<noteq> None \<longrightarrow> h \<in> snd st)"

fun count_created :: "'r call list \<Rightarrow> nat" where
  "count_created [] = 0"
| "count_created (Created repo # cs) = Suc (count_created cs)"
| "count_created (Closing h # cs) = count_created cs"

text \<open>
  For the retention loop: the identifiers that \<^verbatim>\<open>ApplyPolicy\<close> puts on the removal list of
  some group of a list of groups, and the statement that one snapshot file is stored and
  listed in a repository as it was in another.
\<close>

definition removal_candidates :: "'d env \<Rightarrow> 'd ExpirePolicy \<Rightarrow> snapshot list list \<Rightarrow> string set" where
  "removal_candidates E p grps = (\<Union>g \<in> set grps. dID ` set (snd (ApplyPolicy E g p)))"

definition same_file :: "repo \<Rightarrow> repo \<Rightarrow> string \<Rightarrow> bool" where
  "same_file r r' ident \<longleftrightarrow>
     stored_snapshots r' ident = stored_snapshots r ident
     \<and> (ident \<in> set (fst (snapshot_listing r')) \<longleftrightarrow> ident \<in> set (fst (snapshot_listing r)))"

text \<open>A session type with one value, whose methods all succeed; a backend that always connects.\<close>

definition unit_ops :: "unit Repository" where
  "unit_ops =
     \<lparr>Backup_m = (\<lambda>r opts. Inr ''0a1b2c3d''),
      Restore_m = (\<lambda>r sid opts. None),
      Snapshots_m = (\<lambda>r f. Inr []),
      Check_m = (\<lambda>r depth. (\<lparr>Errors = [], Warnings = [], Success = True\<rparr>, None)),
      Close_m = (\<lambda>r. None)\<rparr>"

definition unit_connect :: "Config \<Rightarrow> lib_error + unit" where
  "unit_connect cfg = Inr ()"

text \<open>
  An insertion sort that puts each new element in front of the elements that are
  neither before nor after it.  It keeps the contract of \<^verbatim>\<open>sort.Slice\<close> for
  \<open>newest_first\<close> (\<open>fold_insert_sort_contract\<close>) and stands for \<^verbatim>\<open>sort.Slice\<close> where a
  theorem is applied that assumes only that contract.
\<close>

fun insert_before_equal :: "('a \<Rightarrow> 'a \<Rightarrow> bool) \<Rightarrow> 'a \<Rightarrow> 'a list \<Rightarrow> 'a list" where
  "insert_before_equal lt x [] = [x]"
| "insert_before_equal lt x (y # ys) =
     (if lt y x then y # insert_before_equal lt x ys else x # y # ys)"

definition fold_insert_sort :: "('a \<Rightarrow> 'a \<Rightarrow> bool) \<Rightarrow> 'a list \<Rightarrow> 'a list" where
  "fold_insert_sort lt xs = fold (insert_before_equal lt) xs []"

text \<open>
  Modelled from the spec: \<^verbatim>\<open>data.GroupSnapshots\<close> is not under \<^verbatim>\<open>src/\<close>.  ``Snapshots
  are partitioned into independent groups keyed by (hostname, the snapshot's path
  set)''; the groups come in the order of their first snapshot.
\<close>

definition same_group :: "snapshot \<Rightarrow> snapshot \<Rightarrow> bool" where
  "same_group a b \<longleftrightarrow> dHostname a = dHostname b \<and> set (dPaths a) = set (dPaths b)"

fun add_to_groups :: "snapshot \<Rightarrow> snapshot list list \<Rightarrow> snapshot list list" where
  "add_to_groups sn [] = [[sn]]"
| "add_to_groups sn ([] # gs) = [] # add_to_groups sn gs"
| "add_to_groups sn ((x # xs) # gs) =
     (if same_group sn x then ((x # xs) @ [sn]) # gs else (x # xs) # add_to_groups sn gs)"

definition group_by_host_and_paths :: "snapshot list \<Rightarrow> string + snapshot list list" where
  "group_by_host_and_paths sns = Inr (fold add_to_groups sns [])"

text \<open>
  Modelled from the spec: \<^verbatim>\<open>data.ApplyPolicy\<close> is not under \<^verbatim>\<open>src/\<close>.  Of the rules of the
  keep set this covers the two that need no calendar, ``the \<^verbatim>\<open>KeepLast\<close> most recent
  snapshots'' and ``any snapshot whose tags intersect \<^verbatim>\<open>KeepTags\<close>''; the instances
  below set no other rule.  Everything not kept is a removal candidate.
\<close>

definition has_keep_tag :: "'d ExpirePolicy \<Rightarrow> snapshot \<Rightarrow> bool" where
  "has_keep_tag p sn \<longleftrightarrow> (\<exists>tagList \<in> set (pTags p). \<exists>t \<in> set tagList. t \<in> set (dTags sn))"

definition keep_last_and_tagged :: "snapshot list \<Rightarrow> 'd ExpirePolicy \<Rightarrow> snapshot list \<times> snapshot list" where
  "keep_last_and_tagged grp p =
     (let newest = sort_key (\<lambda>sn. - dTime sn) grp;
          recent = take (nat (Last p)) newest;
          older = drop (nat (Last p)) newest
      in (recent @ filter (has_keep_tag p) older, filter (\<lambda>sn. \<not> has_keep_tag p sn) older))"

text \<open>
  The two timestamps and the one duration that the instances parse; every other text
  is malformed.  Times are seconds since 1970; the duration type is a number of days.
\<close>

definition example_time_Parse :: "string \<Rightarrow> int option" where
  "example_time_Parse text =
     (if text = ''2024-01-01T00:00:00Z'' then Some 1704067200
      else if text = ''2024-06-01T00:00:00Z'' then Some 1717200000
      else None)"

definition example_time_Format :: "int \<Rightarrow> string" where
  "example_time_Format t =
     (if t = 1704067200 then ''2024-01-01T00:00:00Z''
      else if t = 1717200000 then ''2024-06-01T00:00:00Z''
      else ''1970-01-01T00:00:00Z'')"

definition example_ParseDuration :: "string \<Rightarrow> string + nat" where
  "example_ParseDuration text = (if text = ''30d'' then Inr 30 else Inl ''invalid duration'')"

definition example_env :: "nat env" where
  "example_env =
     \<lparr>time_Parse = example_time_Parse, time_Format = example_time_Format, id_Str = take 8,
      sort_Slice = fold_insert_sort, ParseDuration = example_ParseDuration,
      GroupSnapshots = group_by_host_and_paths, ApplyPolicy = keep_last_and_tagged\<rparr>"

text \<open>
  The same environment with the algorithm of \<^verbatim>\<open>sort.Slice\<close> itself.  \<^verbatim>\<open>xorshift.Next\<close> is
  the generator of \<^verbatim>\<open>breakPatterns_func\<close>.  \<open>sort_Slice_go\<close> returns the slice unsorted
  should the count of rounds run out; \<open>go_sort_thirteen\<close> below shows the sorted result
  for the slice that is used, whatever the generator.
\<close>

definition xorshift_Next :: "64 word \<Rightarrow> 64 word" where
  "xorshift_Next r =
     (let r1 = r XOR push_bit 13 r;
          r2 = r1 XOR drop_bit 7 r1
      in r2 XOR push_bit 17 r2)"

definition sort_Slice_go :: "('a \<Rightarrow> 'a \<Rightarrow> bool) \<Rightarrow> 'a list \<Rightarrow> 'a list" where
  "sort_Slice_go lt x = (case go_sort_Slice xorshift_Next lt x of Some sortedSlice \<Rightarrow> sortedSlice | None \<Rightarrow> x)"

definition go_env :: "nat env" where
  "go_env = example_env\<lparr>sort_Slice := sort_Slice_go\<rparr>"

definition example_snapshot :: "string \<Rightarrow> int \<Rightarrow> string \<Rightarrow> string list \<Rightarrow> snapshot" where
  "example_snapshot ident t host tags =
     \<lparr>dID = ident, dTime = t, dTree = ''7e57ab1e'', dPaths = [''/home''], dHostname = host,
      dUsername = ''user'', dTags = tags, dParent = None\<rparr>"

text \<open>A healthy repository that holds the given snapshots and pack files.\<close>

definition example_repo :: "snapshot list \<Rightarrow> string list \<Rightarrow> repo" where
  "example_repo sns packs =
     \<lparr>snapshot_listing = (map dID sns, None),
      stored_snapshots = map_of (map (\<lambda>sn. (dID sn, sn)) sns),
      remove_error = (\<lambda>ident. None),
      pack_listing = (packs, None),
      index_error = None,
      checker_index = ([], []),
      checker_packs = [],
      checker_data = []\<rparr>"

text \<open>Twelve snapshots of one instant, and a thirteenth, newer one at the end.\<close>

definition thirteen_snapshots :: "snapshot list" where
  "thirteen_snapshots =
     map (\<lambda>ident. example_snapshot ident 1704067200 ''h1'' [])
       [''s00'', ''s01'', ''s02'', ''s03'', ''s04'', ''s05'', ''s06'', ''s07'', ''s08'', ''s09'',
        ''s10'', ''s11'']
     @ [example_snapshot ''s12'' 1717200000 ''h1'' []]"

text \<open>The policy with no rule, and a policy whose only rule keeps the tag \<^verbatim>\<open>pin\<close>.\<close>

definition no_policy :: ForgetPolicy where
  "no_policy = \<lparr>KeepLast = 0, KeepHourly = 0, KeepDaily = 0, KeepWeekly = 0, KeepMonthly = 0,
                KeepYearly = 0, KeepWithin = None, KeepTags = []\<rparr>"

definition pin_policy :: ForgetPolicy where
  "pin_policy = no_policy\<lparr>KeepTags := [''pin'']\<rparr>"

text \<open>Two snapshots of host \<^verbatim>\<open>h1\<close>, neither pinned, and two of host \<^verbatim>\<open>h2\<close>, one pinned.\<close>

definition mixed_snapshots :: "snapshot list" where
  "mixed_snapshots =
     [example_snapshot ''a1'' 1704067200 ''h1'' [],
      example_snapshot ''b1'' 1704067200 ''h2'' [''pin''],
      example_snapshot ''a2'' 1717200000 ''h1'' [],
      example_snapshot ''b2'' 1717200000 ''h2'' []]"

text \<open>A repository whose pack listing hands over two pack files and then fails.\<close>

definition broken_listing_repo :: repo where
  "broken_listing_repo =
     (example_repo [] [])\<lparr>pack_listing := ([''p1'', ''p2''], Some ''connection reset'')\<rparr>"

text \<open>A repository whose pack check sends 2147483648 errors.\<close>

definition flooded_repo :: repo where
  "flooded_repo = (example_repo [] [])\<lparr>checker_packs := replicate 2147483648 ''pack damaged''\<rparr>"

text \<open>A repository whose pack check sends two errors.\<close>

definition damaged_repo :: repo where
  "damaged_repo = (example_repo [] [])\<lparr>checker_packs := [''pack 1 damaged'', ''pack 2 damaged'']\<rparr>"

text \<open>
  The method table of the library's own \<^verbatim>\<open>repositoryImpl\<close>: \<^verbatim>\<open>Snapshots\<close> and \<^verbatim>\<open>Check\<close> as
  modelled above; \<^verbatim>\<open>Backup\<close>, \<^verbatim>\<open>Restore\<close> and \<^verbatim>\<open>Close\<close> run the archiver, the restorer and
  the backend and are given.
\<close>

definition repo_ops ::
  "'d env \<Rightarrow> (repo \<Rightarrow> BackupOptions \<Rightarrow> lib_error + string) \<Rightarrow>
   (repo \<Rightarrow> string \<Rightarrow> RestoreOptions \<Rightarrow> lib_error option) \<Rightarrow> (repo \<Rightarrow> lib_error option) \<Rightarrow>
   repo Repository" where
  "repo_ops E backup restore close =
     \<lparr>Backup_m = backup, Restore_m = restore, Snapshots_m = Snapshots E, Check_m = Check,
      Close_m = close\<rparr>"

definition example_ops :: "repo Repository" where
  "example_ops = repo_ops example_env (\<lambda>r opts. Inr ''0a1b2c3d'') (\<lambda>r sid opts. None) (\<lambda>r. None)"

section \<open>Properties of the path selection filters\<close>












text \<open>
  Claim C4.  The claim asks both filters to try each pattern on the full path and on the
  final path component.  The restore filter does; the backup filter tries the final
  component only.  With the exclude pattern \<^verbatim>\<open>/data/*.log\<close> and the item
  \<^verbatim>\<open>/data/a.log\<close>, the pattern matches the full path, the restore filter prunes the
  item, and the backup filter selects it.
\<close>

theorem C4_backup_matches_base_only:
  "Match ''/data/*.log'' ''/data/a.log''
   \<and> selectFilter Match Base [] [''/data/*.log''] ''/data/a.log'' False = (False, False)
   \<and> SelectByName Match Base [] [''/data/*.log''] ''/data/a.log'' = True"
  by (simp add: selectFilter_def SelectByName_def Base_def)

section \<open>Properties of the handle registry\<close>

lemma ucast_scast_cint: "ucast (scast (h :: cint) :: ResticRepo) = h"
  by (rule bit_word_eqI) (auto simp: bit_simps)

lemma scast_cint_inj: "(scast (h :: cint) :: ResticRepo) = scast h' \<Longrightarrow> h = h'"
  by (metis ucast_scast_cint)

lemma ucast_of_nat_cint: "(ucast (of_nat n :: ResticRepo) :: cint) = of_nat n"
  by (rule bit_word_eqI) (auto simp: bit_simps)

lemma sint_of_nat_cint: "n < 2 ^ 31 \<Longrightarrow> sint (of_nat n :: cint) = int n"
  by (simp add: sint_uint signed_take_bit_int_eq_self_iff unsigned_of_nat take_bit_nat_eq_self)

lemma ok_neq_invalid: "RESTIC_OK \<noteq> RESTIC_ERROR_INVALID_PARAMS"
  by (simp add: RESTIC_OK_def RESTIC_ERROR_INVALID_PARAMS_def)

text \<open>A successful \<^verbatim>\<open>restic_init\<close> or \<^verbatim>\<open>restic_open\<close> is \<open>register\<close>; a failed one changes nothing.\<close>

lemma restic_init_success:
  "p \<noteq> [] \<Longrightarrow> connect (make_config u b p a k n) = Inr repo \<Longrightarrow>
   restic_init connect s (Some u) (Some b) (Some p) a k n = register s repo"
  by (simp add: restic_init_def Init_def make_config_def)

lemma restic_open_success:
  "p \<noteq> [] \<Longrightarrow> connect (make_config u b p a k n) = Inr repo \<Longrightarrow>
   restic_open connect s (Some u) (Some b) (Some p) a k n = register s repo"
  by (simp add: restic_open_def Open_def make_config_def)

lemma restic_init_cases:
  "restic_init connect s u b p a k n = (rc, s') \<Longrightarrow>
   (\<exists>repo. register s repo = (rc, s')) \<or> s' = s"
  by (auto simp: restic_init_def split: option.splits sum.splits)

lemma restic_open_cases:
  "restic_open connect s u b p a k n = (rc, s') \<Longrightarrow>
   (\<exists>repo. register s repo = (rc, s')) \<or> s' = s"
  by (auto simp: restic_open_def split: option.splits sum.splits)

text \<open>The other calls leave the registry as it is.\<close>

lemma registry_unchanged:
  "snd (restic_backup ops s h paths paths_count tags tags_count) = s"
  "snd (restic_restore ops s h snapshot_id target_dir) = s"
  "snd (restic_list_snapshots ops s h) = s"
  "snd (restic_check ops s h) = s"
  by (auto simp: restic_backup_def restic_restore_def restic_list_snapshots_def restic_check_def
      Let_def split: option.splits sum.splits prod.splits)

lemma issued_covers_register:
  "issued_covers (s, L) \<Longrightarrow> register s repo = (h, s') \<Longrightarrow> issued_covers (s', insert h L)"
  by (auto simp: issued_covers_def register_def Let_def split: if_splits)
     (metis ucast_scast_cint)

lemma issued_covers_close:
  "issued_covers (s, L) \<Longrightarrow> restic_close ops s h = (rc, s') \<Longrightarrow>
   issued_covers (s', if rc = RESTIC_OK then L - {h} else L)"
  by (auto simp: issued_covers_def restic_close_def Let_def ok_neq_invalid
      split: option.splits if_splits dest: scast_cint_inj)

lemma issued_covers_run:
  "issued_covers st \<Longrightarrow> issued_covers (run_calls ops st cs)"
proof (induction ops st cs rule: run_calls.induct)
  case (1 ops s issued)
  then show ?case by simp
next
  case (2 ops s issued repo cs)
  then show ?case by (auto split: prod.splits dest: issued_covers_register)
next
  case (3 ops s issued h cs)
  then show ?case by (auto split: prod.splits dest: issued_covers_close)
qed

lemma issued_covers_initial: "issued_covers (initial_registry, {})"
  by (simp add: issued_covers_def initial_registry_def)

lemma unregistered_handle_invalid:
  assumes "repositories s (scast h) = None"
  shows "restic_backup ops s h paths paths_count tags tags_count = ((RESTIC_ERROR_INVALID_PARAMS, None), s)"
    and "restic_restore ops s h snapshot_id target_dir = (RESTIC_ERROR_INVALID_PARAMS, s)"
    and "restic_list_snapshots ops s h = ((RESTIC_ERROR_INVALID_PARAMS, None, None), s)"
    and "restic_check ops s h = ((RESTIC_ERROR_INVALID_PARAMS, None), s)"
    and "restic_close ops s h = (RESTIC_ERROR_INVALID_PARAMS, s)"
  using assms
  by (simp_all add: restic_backup_def restic_restore_def restic_list_snapshots_def
      restic_check_def restic_close_def)

lemma closed_handle_unregistered:
  "restic_close ops s h = (RESTIC_OK, s') \<Longrightarrow> repositories s' (scast h) = None"
  by (auto simp: restic_close_def Let_def split: option.splits)

text \<open>The counter after a history: one step for each successful create.\<close>

lemma nextRepoID_run:
  "nextRepoID (fst (run_calls ops (s, L) cs)) = nextRepoID s + of_nat (count_created cs)"
proof (induction cs arbitrary: s L)
  case Nil
  then show ?case by simp
next
  case (Cons c cs)
  show ?case
  proof (cases c)
    case (Created repo)
    then show ?thesis
      using Cons.IH [of "snd (register s repo)"]
      by (simp add: register_def Let_def split: prod.splits)
  next
    case (Closing h)
    then show ?thesis
      using Cons.IH [of "snd (restic_close ops s h)"]
      by (auto simp: restic_close_def Let_def split: prod.splits option.splits)
  qed
qed

lemma count_created_replicate: "count_created (replicate n (Created repo)) = n"
  by (induction n) simp_all

text \<open>
  Below the 32-bit limit the handles are the positive integers in order: after a
  history with \<open>n\<close> successful creates, \<open>n + 1 < 2 ^ 31\<close>, the next create returns
  \<open>n + 1\<close>.
\<close>

lemma next_handle_below_limit:
  assumes "count_created cs = n" and "n + 1 < 2 ^ 31"
  shows "sint (fst (register (fst (run_calls ops (initial_registry, {}) cs)) repo)) = int n + 1"
proof -
  have "nextRepoID (fst (run_calls ops (initial_registry, {}) cs)) = 1 + of_nat n"
    using nextRepoID_run [of ops initial_registry "{}" cs] assms(1)
    by (simp add: initial_registry_def)
  then have "fst (register (fst (run_calls ops (initial_registry, {}) cs)) repo) = (of_nat (n + 1) :: cint)"
    by (simp add: register_def Let_def ucast_of_nat_cint [of "n + 1", simplified])
  moreover have "sint (of_nat (n + 1) :: cint) = int (n + 1)"
    using assms(2) by (rule sint_of_nat_cint)
  ultimately show ?thesis by simp
qed

text \<open>
  Claim C5.  The claim asks for handles that increase strictly and never repeat for
  the life of the process.  The handle is \<^verbatim>\<open>C.int(repoID)\<close>, the low 32 bits of the
  counter: the create that follows 2147483646 successful creates returns 2147483647,
  the one after it returns -2147483648, and the create that follows 4294967296
  successful creates returns 1, the value of the first handle.
\<close>

theorem C5_handle_wraps:
  "sint (fst (restic_init unit_connect
           (fst (run_calls unit_ops (initial_registry, {}) (replicate 2147483646 (Created ()))))
           (Some ''/repo'') (Some ''local'') (Some ''pw'') None None 1)) = 2147483647
   \<and> sint (fst (restic_init unit_connect
           (fst (run_calls unit_ops (initial_registry, {}) (replicate 2147483647 (Created ()))))
           (Some ''/repo'') (Some ''local'') (Some ''pw'') None None 1)) = - 2147483648
   \<and> sint (fst (restic_open unit_connect
           (fst (run_calls unit_ops (initial_registry, {}) (replicate 4294967296 (Created ()))))
           (Some ''/repo'') (Some ''local'') (Some ''pw'') None None 1)) = 1
   \<and> sint (fst (restic_init unit_connect (initial_registry :: unit registry)
           (Some ''/repo'') (Some ''local'') (Some ''pw'') None None 1)) = 1"
  by (simp add: restic_init_def restic_open_def Init_def Open_def unit_connect_def register_def
      nextRepoID_run count_created_replicate initial_registry_def make_config_def)

text \<open>
  Claim C6.  After any history of creates and closes from the initial registry, a
  handle value that is not among the issued and not yet destroyed ones (it was never
  issued, or it was destroyed after it was last issued) makes \<^verbatim>\<open>restic_backup\<close>,
  \<^verbatim>\<open>restic_restore\<close>, \<^verbatim>\<open>restic_list_snapshots\<close>, \<^verbatim>\<open>restic_check\<close> and \<^verbatim>\<open>restic_close\<close>
  return \<^verbatim>\<open>RESTIC_ERROR_INVALID_PARAMS\<close>, write no output and leave the registry
  unchanged.
\<close>

theorem C6_stale_handle_invalid:
  assumes "run_calls ops (initial_registry, {}) history = (s, issued)" and "h \<notin> issued"
  shows "restic_backup ops s h paths paths_count tags tags_count = ((RESTIC_ERROR_INVALID_PARAMS, None), s)
       \<and> restic_restore ops s h snapshot_id target_dir = (RESTIC_ERROR_INVALID_PARAMS, s)
       \<and> restic_list_snapshots ops s h = ((RESTIC_ERROR_INVALID_PARAMS, None, None), s)
       \<and> restic_check ops s h = ((RESTIC_ERROR_INVALID_PARAMS, None), s)
       \<and> restic_close ops s h = (RESTIC_ERROR_INVALID_PARAMS, s)"
proof -
  have "issued_covers (s, issued)"
    using issued_covers_run [OF issued_covers_initial, of ops history] assms(1) by simp
  with assms(2) have "repositories s (scast h) = None"
    by (auto simp: issued_covers_def)
  then show ?thesis
    by (simp add: unregistered_handle_invalid)
qed

lemma example_history:
  "run_calls unit_ops (initial_registry, {}) [Created (), Created (), Closing 1]
   = (\<lparr>repositories = [2 \<mapsto> ()], nextRepoID = 3\<rparr>, {2})"
  by (simp add: initial_registry_def register_def restic_close_def Let_def RESTIC_OK_def
      fun_upd_twist insert_Diff_if)

theorem C6_stale_handle_invalid_witness:
  "restic_close unit_ops \<lparr>repositories = [2 \<mapsto> ()], nextRepoID = 3\<rparr> 1
     = (RESTIC_ERROR_INVALID_PARAMS, \<lparr>repositories = [2 \<mapsto> ()], nextRepoID = 3\<rparr>)
   \<and> restic_check unit_ops \<lparr>repositories = [2 \<mapsto> ()], nextRepoID = 3\<rparr> 7
     = ((RESTIC_ERROR_INVALID_PARAMS, None), \<lparr>repositories = [2 \<mapsto> ()], nextRepoID = 3\<rparr>)
   \<and> restic_backup unit_ops \<lparr>repositories = [2 \<mapsto> ()], nextRepoID = 3\<rparr> (- 1)
        (Some (\<lambda>i. ''/home'')) 1 None 0
     = ((RESTIC_ERROR_INVALID_PARAMS, None), \<lparr>repositories = [2 \<mapsto> ()], nextRepoID = 3\<rparr>)"
proof -
  have a: "(1 :: cint) \<notin> {2}" and b: "(7 :: cint) \<notin> {2}" and c: "(- 1 :: cint) \<notin> {2}"
    by simp_all
  show ?thesis
    using C6_stale_handle_invalid [OF example_history a]
      C6_stale_handle_invalid [OF example_history b]
      C6_stale_handle_invalid [OF example_history c]
    by simp
qed


section \<open>Properties of the snapshot listing\<close>

lemma mset_insert_before_equal: "mset (insert_before_equal lt x ys) = add_mset x (mset ys)"
  by (induction ys) simp_all

lemma set_insert_before_equal: "set (insert_before_equal lt x ys) = insert x (set ys)"
  by (induction ys) auto

lemma sorted_insert_before_equal:
  "sorted_wrt (\<lambda>a b. \<not> newest_first b a) ys \<Longrightarrow>
   sorted_wrt (\<lambda>a b. \<not> newest_first b a) (insert_before_equal newest_first x ys)"
  by (induction ys) (auto simp: set_insert_before_equal newest_first_def)

lemma mset_fold_insert:
  "mset (fold (insert_before_equal lt) xs acc) = mset xs + mset acc"
  by (induction xs arbitrary: acc) (simp_all add: mset_insert_before_equal)

lemma sorted_fold_insert:
  "sorted_wrt (\<lambda>a b. \<not> newest_first b a) acc \<Longrightarrow>
   sorted_wrt (\<lambda>a b. \<not> newest_first b a) (fold (insert_before_equal newest_first) xs acc)"
  by (induction xs arbitrary: acc) (simp_all add: sorted_insert_before_equal)

lemma fold_insert_sort_contract: "sort_Slice_contract fold_insert_sort newest_first"
  by (simp add: sort_Slice_contract_def fold_insert_sort_def mset_fold_insert sorted_fold_insert)

lemma apply_limit_take:
  "apply_limit limit xs = (if limit > 0 then take (nat limit) xs else xs)"
  by (auto simp: apply_limit_def)

lemma sorted_lists_unique:
  fixes xs ys :: "'a list" and key :: "'a \<Rightarrow> int"
  assumes "mset xs = mset ys" and "sorted (map key xs)" and "sorted (map key ys)"
    and "distinct (map key ys)"
  shows "xs = ys"
proof -
  have "mset (map key xs) = mset (map key ys)"
    using assms(1) by simp
  then have keys: "map key xs = map key ys"
    using assms(2,3) by (metis properties_for_sort)
  have "set xs = set ys"
    using assms(1) by (metis set_mset_mset)
  moreover have "inj_on key (set ys)"
    using assms(4) by (simp add: distinct_map)
  ultimately show ?thesis
    using keys by (metis map_inj_on sup.idem)
qed

lemma Snapshots_stable_for_distinct_times:
  assumes "sort_Slice_contract (sort_Slice E) newest_first"
    and "load_snapshots r = Inr allSnapshots"
    and "distinct (map dTime (filter (\<lambda>sn. matchesFilter E sn f) allSnapshots))"
  shows "Snapshots E r f = Snapshots_spec E r f"
proof -
  let ?matching = "filter (\<lambda>sn. matchesFilter E sn f) allSnapshots"
  let ?key = "\<lambda>sn. - dTime sn"
  let ?S = "sort_Slice E newest_first ?matching"
  let ?T = "sort_key ?key ?matching"
  have "mset ?S = mset ?T"
    using assms(1) by (simp add: sort_Slice_contract_def)
  moreover have "sorted_wrt (\<lambda>a b. \<not> newest_first b a) ?S"
    using assms(1) by (simp add: sort_Slice_contract_def)
  then have "sorted (map ?key ?S)"
    by (simp add: sorted_wrt_map newest_first_def not_less)
  moreover have "sorted (map ?key ?T)"
    by simp
  moreover have "distinct (map ?key ?T)"
  proof -
    have "distinct (map ?key ?matching)"
      using assms(3) by (simp add: distinct_map inj_on_def)
    then show ?thesis
      by (metis distinct_map distinct_sort set_sort)
  qed
  ultimately have "?S = ?T"
    by (rule sorted_lists_unique)
  then show ?thesis
    using assms(2) by (simp add: Snapshots_def Snapshots_spec_def apply_limit_take)
qed

text \<open>
  Claim C3, amended.  When \<^verbatim>\<open>sort.Slice\<close> keeps its documented contract and the snapshot
  files can be listed, \<^verbatim>\<open>Snapshots\<close> returns the converted snapshots of a list that is a
  rearrangement of the matching snapshots and is ordered by time, newest first; the list
  is cut to its first \<^verbatim>\<open>Limit\<close> elements exactly when \<^verbatim>\<open>Limit\<close> is positive.  When the
  times of the matching snapshots are pairwise distinct this is the result the
  specification describes; the order of snapshots with equal times is not determined.
\<close>

theorem C3_snapshots_sorted_and_limited:
  assumes "sort_Slice_contract (sort_Slice E) newest_first"
    and "load_snapshots r = Inr allSnapshots"
  shows "(\<exists>sortedSnapshots.
           Snapshots E r f =
             Inr (map (convertSnapshot E)
                    (if Limit f > 0 then take (nat (Limit f)) sortedSnapshots else sortedSnapshots))
         \<and> mset sortedSnapshots = mset (filter (\<lambda>sn. matchesFilter E sn f) allSnapshots)
         \<and> sorted_wrt (\<lambda>a b. dTime a \<ge> dTime b) sortedSnapshots)
       \<and> (distinct (map dTime (filter (\<lambda>sn. matchesFilter E sn f) allSnapshots)) \<longrightarrow>
            Snapshots E r f = Snapshots_spec E r f)"
proof -
  let ?matching = "filter (\<lambda>sn. matchesFilter E sn f) allSnapshots"
  let ?sorted = "sort_Slice E newest_first ?matching"
  have perm: "mset ?sorted = mset ?matching"
    using assms(1) by (simp add: sort_Slice_contract_def)
  have "sorted_wrt (\<lambda>a b. \<not> newest_first b a) ?sorted"
    using assms(1) by (simp add: sort_Slice_contract_def)
  then have ord: "sorted_wrt (\<lambda>a b. dTime a \<ge> dTime b) ?sorted"
    by (simp add: newest_first_def not_less)
  have "Snapshots E r f =
          Inr (map (convertSnapshot E) (if Limit f > 0 then take (nat (Limit f)) ?sorted else ?sorted))"
    using assms(2) by (simp add: Snapshots_def apply_limit_take)
  with perm ord have "\<exists>sortedSnapshots.
           Snapshots E r f =
             Inr (map (convertSnapshot E)
                    (if Limit f > 0 then take (nat (Limit f)) sortedSnapshots else sortedSnapshots))
         \<and> mset sortedSnapshots = mset ?matching
         \<and> sorted_wrt (\<lambda>a b. dTime a \<ge> dTime b) sortedSnapshots"
    by blast
  then show ?thesis
    using Snapshots_stable_for_distinct_times [OF assms] by blast
qed

lemma load_thirteen: "load_snapshots (example_repo thirteen_snapshots []) = Inr thirteen_snapshots"
  by (simp add: load_snapshots_def example_repo_def thirteen_snapshots_def example_snapshot_def)

theorem C3_snapshots_sorted_and_limited_witness:
  "\<exists>sortedSnapshots.
     Snapshots example_env (example_repo thirteen_snapshots []) (empty_filter\<lparr>Limit := 2\<rparr>) =
       Inr (map (convertSnapshot example_env) (take 2 sortedSnapshots))
   \<and> mset sortedSnapshots = mset thirteen_snapshots
   \<and> sorted_wrt (\<lambda>a b. dTime a \<ge> dTime b) sortedSnapshots"
proof -
  have c: "sort_Slice_contract (sort_Slice example_env) newest_first"
    by (simp add: example_env_def fold_insert_sort_contract)
  have m: "filter (\<lambda>sn. matchesFilter example_env sn (empty_filter\<lparr>Limit := 2\<rparr>)) thirteen_snapshots
           = thirteen_snapshots"
    by (simp add: matchesFilter_def empty_filter_def)
  show ?thesis
    using C3_snapshots_sorted_and_limited [OF c load_thirteen, of "empty_filter\<lparr>Limit := 2\<rparr>", unfolded m]
    by simp
qed

lemmas go_sort_eval =
  go_sort_Slice_def insertionSort_func_def insertion_inner.simps insertion_outer.simps
  choosePivot_func_def median_func_def order2_func_def partialInsertionSort_func_def
  skip_ordered.simps partition_func_def partition_loop.simps move_up.simps move_down.simps
  data_Less_def data_Swap_def quo_def Let_def eval_nat_numeral

text \<open>
  \<^verbatim>\<open>sort.Slice\<close> on the thirteen snapshots.  The slice is longer than twelve, so a pivot
  is chosen (the median of the elements 3, 6 and 9, which is element 6 after no swap),
  the ordered prefix is skipped up to the last element, which is newer than the one
  before it, \<^verbatim>\<open>partition_func\<close> swaps the pivot \<^verbatim>\<open>s06\<close> to the front, exchanges \<^verbatim>\<open>s01\<close> and
  \<^verbatim>\<open>s12\<close> and swaps the pivot behind \<^verbatim>\<open>s12\<close>, and the parts on both sides of the pivot
  are sorted by insertion, which moves nothing.  The generator is never asked.
\<close>

lemma go_sort_thirteen:
  "go_sort_Slice rnd newest_first thirteen_snapshots =
     Some (map (\<lambda>ident. example_snapshot ident (if ident = ''s12'' then 1717200000 else 1704067200) ''h1'' [])
             [''s12'', ''s06'', ''s02'', ''s03'', ''s04'', ''s05'', ''s00'', ''s07'', ''s08'', ''s09'',
              ''s10'', ''s11'', ''s01''])"
  by (simp add: go_sort_eval thirteen_snapshots_def example_snapshot_def newest_first_def)

lemma matching_thirteen:
  "filter (\<lambda>sn. matchesFilter E sn empty_filter) thirteen_snapshots = thirteen_snapshots"
  by (simp add: matchesFilter_def empty_filter_def)

text \<open>
  Claim C3 as stated fails.  Twelve snapshots of one instant followed by a newer one are
  listed by the code, with the algorithm of \<^verbatim>\<open>sort.Slice\<close>, as \<^verbatim>\<open>s12\<close>, \<^verbatim>\<open>s06\<close>, \<^verbatim>\<open>s02\<close>, ...,
  \<^verbatim>\<open>s05\<close>, \<^verbatim>\<open>s00\<close>, \<^verbatim>\<open>s07\<close>, ..., \<^verbatim>\<open>s11\<close>, \<^verbatim>\<open>s01\<close>; the stable sort of the specification keeps
  the twelve in the order in which they were loaded.
\<close>

theorem C3_sort_not_stable:
  "go_sort_Slice xorshift_Next newest_first thirteen_snapshots \<noteq> None
   \<and> map_sum id (map ID) (Snapshots go_env (example_repo thirteen_snapshots []) empty_filter)
     = Inr [''s12'', ''s06'', ''s02'', ''s03'', ''s04'', ''s05'', ''s00'', ''s07'', ''s08'', ''s09'',
            ''s10'', ''s11'', ''s01'']
   \<and> map_sum id (map ID) (Snapshots_spec go_env (example_repo thirteen_snapshots []) empty_filter)
     = Inr [''s12'', ''s00'', ''s01'', ''s02'', ''s03'', ''s04'', ''s05'', ''s06'', ''s07'', ''s08'',
            ''s09'', ''s10'', ''s11'']
   \<and> Snapshots go_env (example_repo thirteen_snapshots []) empty_filter
     \<noteq> Snapshots_spec go_env (example_repo thirteen_snapshots []) empty_filter"
proof -
  have s: "go_sort_Slice xorshift_Next newest_first thirteen_snapshots \<noteq> None"
    by (simp add: go_sort_thirteen)
  have a: "map_sum id (map ID) (Snapshots go_env (example_repo thirteen_snapshots []) empty_filter)
     = Inr [''s12'', ''s06'', ''s02'', ''s03'', ''s04'', ''s05'', ''s00'', ''s07'', ''s08'', ''s09'',
            ''s10'', ''s11'', ''s01'']"
    by (simp add: Snapshots_def load_thirteen matching_thirteen Let_def)
       (simp add: go_env_def example_env_def sort_Slice_go_def go_sort_thirteen apply_limit_def
          empty_filter_def convertSnapshot_def example_snapshot_def)
  have b: "map_sum id (map ID) (Snapshots_spec go_env (example_repo thirteen_snapshots []) empty_filter)
     = Inr [''s12'', ''s00'', ''s01'', ''s02'', ''s03'', ''s04'', ''s05'', ''s06'', ''s07'', ''s08'',
            ''s09'', ''s10'', ''s11'']"
    by (simp add: Snapshots_spec_def load_thirteen)
       (simp add: thirteen_snapshots_def example_snapshot_def go_env_def example_env_def matchesFilter_def
          empty_filter_def convertSnapshot_def)
  from a b have "map_sum id (map ID) (Snapshots go_env (example_repo thirteen_snapshots []) empty_filter)
     \<noteq> map_sum id (map ID) (Snapshots_spec go_env (example_repo thirteen_snapshots []) empty_filter)"
    by simp
  then have "Snapshots go_env (example_repo thirteen_snapshots []) empty_filter
     \<noteq> Snapshots_spec go_env (example_repo thirteen_snapshots []) empty_filter"
    by metis
  with s a b show ?thesis by blast
qed


text \<open>
  Claim C8.  A \<^verbatim>\<open>Since\<close> or \<^verbatim>\<open>Until\<close> text that \<^verbatim>\<open>time.Parse\<close> rejects changes nothing:
  \<^verbatim>\<open>matchesFilter\<close> decides as it does for the filter without that bound.
\<close>

theorem C8_malformed_bound_ignored:
  "(Since f = Some text \<and> time_Parse E text = None \<longrightarrow>
      matchesFilter E sn f = matchesFilter E sn (f\<lparr>Since := None\<rparr>))
   \<and> (Until f = Some text \<and> time_Parse E text = None \<longrightarrow>
      matchesFilter E sn f = matchesFilter E sn (f\<lparr>Until := None\<rparr>))"
  by (simp add: matchesFilter_def)

theorem C8_malformed_bound_ignored_witness:
  "matchesFilter example_env (example_snapshot ''s00'' 1704067200 ''h1'' [])
     (empty_filter\<lparr>Since := Some ''next tuesday''\<rparr>)
   \<and> matchesFilter example_env (example_snapshot ''s00'' 1704067200 ''h1'' [])
     (empty_filter\<lparr>Until := Some ''2023-13-45''\<rparr>)
   \<and> \<not> matchesFilter example_env (example_snapshot ''s00'' 1704067200 ''h1'' [])
     (empty_filter\<lparr>Since := Some ''2024-06-01T00:00:00Z''\<rparr>)"
  using C8_malformed_bound_ignored [of "empty_filter\<lparr>Since := Some ''next tuesday''\<rparr>"
      "''next tuesday''" example_env "example_snapshot ''s00'' 1704067200 ''h1'' []"]
    C8_malformed_bound_ignored [of "empty_filter\<lparr>Until := Some ''2023-13-45''\<rparr>"
      "''2023-13-45''" example_env "example_snapshot ''s00'' 1704067200 ''h1'' []"]
  by (simp add: example_env_def example_time_Parse_def)
     (simp add: matchesFilter_def empty_filter_def example_snapshot_def example_time_Parse_def)

section \<open>Properties of Forget, Prune and Check\<close>

text \<open>
  Claim C7.  \<^verbatim>\<open>Empty\<close> holds exactly when every keep count is zero, \<^verbatim>\<open>KeepWithin\<close> is
  absent and \<^verbatim>\<open>KeepTags\<close> has no element; for such a policy \<^verbatim>\<open>Forget\<close> returns the error
  ``forget policy is empty'' and leaves the repository as it was.
\<close>

theorem C7_empty_policy_rejected:
  "(Empty policy \<longleftrightarrow>
      KeepLast policy = 0 \<and> KeepHourly policy = 0 \<and> KeepDaily policy = 0 \<and>
      KeepWeekly policy = 0 \<and> KeepMonthly policy = 0 \<and> KeepYearly policy = 0 \<and>
      KeepWithin policy = None \<and> KeepTags policy = [])
   \<and> (Empty policy \<longrightarrow> Forget E r policy = (Inl Forget_policy_empty, r))"
  by (simp add: Empty_def Forget_def)

theorem C7_empty_policy_rejected_witness:
  "Empty no_policy
   \<and> Forget example_env (example_repo thirteen_snapshots []) no_policy
       = (Inl Forget_policy_empty, example_repo thirteen_snapshots [])"
  using C7_empty_policy_rejected [of no_policy example_env "example_repo thirteen_snapshots []"]
  by (simp add: no_policy_def)

lemma forget_groups_skip:
  assumes "internal_policy E policy = Inr ip"
    and "ApplyPolicy E grp ip = (keep, remove)" and "keep = []" and "remove \<noteq> []"
  shows "forget_groups E policy (before @ grp # after) r removedIDs
       = forget_groups E policy (before @ after) r removedIDs"
proof (induction before arbitrary: r removedIDs)
  case Nil
  show ?case using assms by simp
next
  case (Cons g before)
  show ?case
    using assms(1) Cons.IH by (simp split: prod.splits)
qed

lemma RemoveUnpacked_frame:
  "RemoveUnpacked r i = (e, r') \<Longrightarrow> j \<noteq> i \<Longrightarrow> same_file r r' j"
  by (auto simp: RemoveUnpacked_def same_file_def split: option.splits)

lemma same_file_trans: "same_file r r' j \<Longrightarrow> same_file r' r'' j \<Longrightarrow> same_file r r'' j"
  by (simp add: same_file_def)

lemma same_file_refl: "same_file r r j"
  by (simp add: same_file_def)

lemma remove_loop_frame:
  "remove_loop r sns acc = (r', acc') \<Longrightarrow>
   set acc' \<subseteq> set acc \<union> dID ` set sns \<and> (\<forall>j. j \<notin> dID ` set sns \<longrightarrow> same_file r r' j)"
proof (induction sns arbitrary: r acc)
  case Nil
  then show ?case by (simp add: same_file_refl)
next
  case (Cons sn sns)
  obtain e r1 where ru: "RemoveUnpacked r (dID sn) = (e, r1)"
    by (cases "RemoveUnpacked r (dID sn)")
  let ?acc1 = "case e of Some err \<Rightarrow> acc | None \<Rightarrow> acc @ [dID sn]"
  have step: "remove_loop r1 sns ?acc1 = (r', acc')"
    using Cons.prems ru by (simp split: option.splits)
  from Cons.IH [OF step]
  have ih: "set acc' \<subseteq> set ?acc1 \<union> dID ` set sns" "\<forall>j. j \<notin> dID ` set sns \<longrightarrow> same_file r1 r' j"
    by simp_all
  have "set ?acc1 \<subseteq> set acc \<union> {dID sn}"
    by (auto split: option.splits)
  with ih(1) have a: "set acc' \<subseteq> set acc \<union> dID ` set (sn # sns)"
    by auto
  have b: "same_file r r' j" if "j \<notin> dID ` set (sn # sns)" for j
  proof -
    from that have "j \<noteq> dID sn" and "j \<notin> dID ` set sns" by auto
    then show ?thesis
      using RemoveUnpacked_frame [OF ru] ih(2) same_file_trans by blast
  qed
  from a b show ?case by blast
qed

lemma forget_groups_frame:
  assumes "internal_policy E policy = Inr ip"
  shows "forget_groups E policy grps r acc = (res, r') \<Longrightarrow>
         (\<forall>ids. res = Inr ids \<longrightarrow> set ids \<subseteq> set acc \<union> removal_candidates E ip grps)
         \<and> (\<forall>j. j \<notin> removal_candidates E ip grps \<longrightarrow> same_file r r' j)"
proof (induction grps arbitrary: r acc)
  case Nil
  then show ?case by (auto simp: same_file_refl)
next
  case (Cons g grps)
  obtain keep remove where ap: "ApplyPolicy E g ip = (keep, remove)"
    by (cases "ApplyPolicy E g ip")
  have cand: "removal_candidates E ip (g # grps) = dID ` set remove \<union> removal_candidates E ip grps"
    using ap by (simp add: removal_candidates_def)
  show ?case
  proof (cases "length keep = 0 \<and> length remove > 0")
    case True
    then have "forget_groups E policy grps r acc = (res, r')"
      using Cons.prems assms ap by simp
    from Cons.IH [OF this] show ?thesis
      unfolding cand by blast
  next
    case False
    obtain r1 acc1 where rl: "remove_loop r remove acc = (r1, acc1)"
      by (cases "remove_loop r remove acc")
    have step: "forget_groups E policy grps r1 acc1 = (res, r')"
      using Cons.prems assms ap False rl by auto
    note ih = Cons.IH [OF step]
    note fr = remove_loop_frame [OF rl]
    have a: "set ids \<subseteq> set acc \<union> removal_candidates E ip (g # grps)" if "res = Inr ids" for ids
      using ih fr that unfolding cand by blast
    have b: "same_file r r' j" if "j \<notin> removal_candidates E ip (g # grps)" for j
      using ih fr that same_file_trans unfolding cand by blast
    from a b show ?thesis by blast
  qed
qed

text \<open>
  Claim C1.  Let the policy be non-empty, and let \<^verbatim>\<open>ApplyPolicy\<close> give an empty keep list
  and a non-empty removal list for one of the groups.  Then \<^verbatim>\<open>Forget\<close> returns what the
  loop over the other groups returns, removed identifiers and repository alike: the
  group is passed over and the groups after it are still processed.  Every identifier
  \<^verbatim>\<open>Forget\<close> reports as removed is a removal candidate of another group, and every
  snapshot of the group that is no removal candidate of another group is stored and
  listed after \<^verbatim>\<open>Forget\<close> as it was before.
\<close>

theorem C1_group_without_keep_is_skipped:
  assumes "\<not> Empty policy"
    and "load_snapshots r = Inr allSnapshots"
    and "GroupSnapshots E allSnapshots = Inr (before @ grp # after)"
    and "internal_policy E policy = Inr internalPolicy"
    and "ApplyPolicy E grp internalPolicy = (keep, remove)"
    and "keep = []" and "remove \<noteq> []"
  shows "Forget E r policy = forget_groups E policy (before @ after) r []
       \<and> forget_groups E policy (grp # after) r' removedIDs = forget_groups E policy after r' removedIDs
       \<and> (\<forall>ids. fst (Forget E r policy) = Inr ids \<longrightarrow>
             set ids \<subseteq> removal_candidates E internalPolicy (before @ after))
       \<and> (\<forall>sn \<in> set grp. dID sn \<notin> removal_candidates E internalPolicy (before @ after) \<longrightarrow>
             same_file r (snd (Forget E r policy)) (dID sn))"
proof -
  have eq: "Forget E r policy = forget_groups E policy (before @ after) r []"
    using assms forget_groups_skip [OF assms(4,5,6,7), of before after r "[]"]
    by (simp add: Forget_def)
  have skip: "forget_groups E policy (grp # after) r' removedIDs = forget_groups E policy after r' removedIDs"
    using assms by simp
  have "forget_groups E policy (before @ after) r [] = (fst (Forget E r policy), snd (Forget E r policy))"
    using eq by simp
  from forget_groups_frame [OF assms(4) this] eq skip show ?thesis
    by simp
qed


text \<open>The witness of C1: the group of host \<^verbatim>\<open>h1\<close> has no pinned snapshot and is passed over.\<close>

lemma load_mixed: "load_snapshots (example_repo mixed_snapshots []) = Inr mixed_snapshots"
  by (simp add: load_snapshots_def example_repo_def mixed_snapshots_def example_snapshot_def)

lemma groups_mixed:
  "GroupSnapshots example_env mixed_snapshots =
     Inr ([] @ [example_snapshot ''a1'' 1704067200 ''h1'' [], example_snapshot ''a2'' 1717200000 ''h1'' []]
          # [[example_snapshot ''b1'' 1704067200 ''h2'' [''pin''], example_snapshot ''b2'' 1717200000 ''h2'' []]])"
  by (simp add: example_env_def group_by_host_and_paths_def mixed_snapshots_def same_group_def
      example_snapshot_def)

lemma internal_pin:
  "internal_policy example_env pin_policy =
     Inr \<lparr>Last = 0, Hourly = 0, Daily = 0, Weekly = 0, Monthly = 0, Yearly = 0, Within = None,
          pTags = [[''pin'']]\<rparr>"
  by (simp add: internal_policy_def pin_policy_def no_policy_def)

lemma apply_h1:
  "ApplyPolicy example_env
     [example_snapshot ''a1'' 1704067200 ''h1'' [], example_snapshot ''a2'' 1717200000 ''h1'' []]
     \<lparr>Last = 0, Hourly = 0, Daily = 0, Weekly = 0, Monthly = 0, Yearly = 0, Within = None,
      pTags = [[''pin'']]\<rparr>
   = ([], [example_snapshot ''a2'' 1717200000 ''h1'' [], example_snapshot ''a1'' 1704067200 ''h1'' []])"
  by (simp add: example_env_def keep_last_and_tagged_def has_keep_tag_def example_snapshot_def)

theorem C1_group_without_keep_is_skipped_witness:
  "fst (Forget example_env (example_repo mixed_snapshots []) pin_policy) = Inr [''b2'']
   \<and> fst (snapshot_listing (snd (Forget example_env (example_repo mixed_snapshots []) pin_policy)))
       = [''a1'', ''b1'', ''a2'']"
proof -
  have ne: "\<not> Empty pin_policy"
    by (simp add: Empty_def pin_policy_def no_policy_def)
  have "Forget example_env (example_repo mixed_snapshots []) pin_policy
       = forget_groups example_env pin_policy
           ([] @ [[example_snapshot ''b1'' 1704067200 ''h2'' [''pin''], example_snapshot ''b2'' 1717200000 ''h2'' []]])
           (example_repo mixed_snapshots []) []"
    using C1_group_without_keep_is_skipped [OF ne load_mixed groups_mixed internal_pin apply_h1]
    by simp
  then show ?thesis
    by (simp add: internal_pin)
       (simp add: example_env_def keep_last_and_tagged_def has_keep_tag_def example_snapshot_def
          RemoveUnpacked_def example_repo_def mixed_snapshots_def)
qed

lemma count_packs_fields:
  "PacksKept (count_packs ids report) = PacksKept report + int (length ids)"
  "PacksDeleted (count_packs ids report) = PacksDeleted report"
  "PacksRepacked (count_packs ids report) = PacksRepacked report"
  "BytesDeleted (count_packs ids report) = BytesDeleted report"
  "BytesRepacked (count_packs ids report) = BytesRepacked report"
  by (induction ids arbitrary: report) simp_all

text \<open>
  Claim C9, amended.  Whatever the options, the report that \<^verbatim>\<open>Prune\<close> returns has
  \<^verbatim>\<open>PacksDeleted\<close>, \<^verbatim>\<open>PacksRepacked\<close>, \<^verbatim>\<open>BytesDeleted\<close> and \<^verbatim>\<open>BytesRepacked\<close> equal to 0, and
  \<^verbatim>\<open>DryRun\<close> does not change the result.  \<^verbatim>\<open>Prune\<close> succeeds exactly when the index loads
  and the pack listing ends without error; then \<^verbatim>\<open>PacksKept\<close> is the number of pack files
  listed.  When it fails, the report is the zero report.
\<close>

theorem C9_prune_reports_nothing_removed:
  assumes "Prune r opts = (report, err)"
  shows "PacksDeleted report = 0 \<and> PacksRepacked report = 0
       \<and> BytesDeleted report = 0 \<and> BytesRepacked report = 0
       \<and> (err = None \<longleftrightarrow> index_error r = None \<and> snd (pack_listing r) = None)
       \<and> (err = None \<longrightarrow> PacksKept report = int (length (fst (pack_listing r))))
       \<and> (err \<noteq> None \<longrightarrow> report = empty_report)
       \<and> Prune r (opts\<lparr>pDryRun := dry\<rparr>) = (report, err)"
  using assms
  by (auto simp: Prune_def performPrune_def count_packs_fields empty_report_def
      split: option.splits prod.splits)

theorem C9_prune_reports_nothing_removed_witness:
  "Prune (example_repo [] [''p1'', ''p2'', ''p3'']) \<lparr>pDryRun = False, MaxUnused = [], MaxRepackSize = []\<rparr>
     = (\<lparr>PacksDeleted = 0, PacksKept = 3, PacksRepacked = 0, BytesDeleted = 0, BytesRepacked = 0\<rparr>, None)
   \<and> Prune broken_listing_repo \<lparr>pDryRun = False, MaxUnused = [], MaxRepackSize = []\<rparr>
     = (empty_report, Some (Prune_failed ''connection reset''))"
proof -
  have a: "Prune (example_repo [] [''p1'', ''p2'', ''p3'']) \<lparr>pDryRun = False, MaxUnused = [], MaxRepackSize = []\<rparr>
     = (\<lparr>PacksDeleted = 0, PacksKept = 3, PacksRepacked = 0, BytesDeleted = 0, BytesRepacked = 0\<rparr>, None)"
    by (simp add: Prune_def performPrune_def example_repo_def empty_report_def)
  have b: "Prune broken_listing_repo \<lparr>pDryRun = False, MaxUnused = [], MaxRepackSize = []\<rparr>
     = (empty_report, Some (Prune_failed ''connection reset''))"
    by (simp add: Prune_def performPrune_def broken_listing_repo_def example_repo_def)
  show ?thesis
    using C9_prune_reports_nothing_removed [OF a] C9_prune_reports_nothing_removed [OF b] a b
    by simp
qed

text \<open>
  Claim C9 as stated fails where \<^verbatim>\<open>Prune\<close> fails: a listing that hands over two pack
  files and then returns an error leaves \<^verbatim>\<open>PacksKept = 0\<close> in the returned report.
\<close>

theorem C9_kept_count_lost_on_error:
  "PacksKept (fst (Prune broken_listing_repo \<lparr>pDryRun = False, MaxUnused = [], MaxRepackSize = []\<rparr>)) = 0
   \<and> length (fst (pack_listing broken_listing_repo)) = 2"
  by (simp add: Prune_def performPrune_def broken_listing_repo_def example_repo_def empty_report_def)


lemma record_errors_fields:
  "Errors (record_errors label errs report) = Errors report @ map ((@) label) errs"
  "Success (record_errors label errs report) \<longleftrightarrow> Success report \<and> errs = []"
  "Warnings (record_errors label errs report) = Warnings report"
  by (induction errs arbitrary: report) auto

lemma record_warnings_fields:
  "Errors (record_warnings hints report) = Errors report"
  "Success (record_warnings hints report) = Success report"
  "Warnings (record_warnings hints report) = Warnings report @ hints"
  by (induction hints arbitrary: report) auto

lemma Check_without_index_errors:
  assumes "index_error r = None" and "snd (checker_index r) = []"
  shows "snd (Check r depth) = None"
    and "Errors (fst (Check r depth)) =
           map ((@) ''pack error: '') (checker_packs r)
           @ (if depth = CheckDepthReadData then map ((@) ''data error: '') (checker_data r) else [])"
    and "Success (fst (Check r depth)) \<longleftrightarrow>
           checker_packs r = [] \<and> (depth = CheckDepthReadData \<longrightarrow> checker_data r = [])"
  using assms
  by (auto simp: Check_def Let_def record_errors_fields record_warnings_fields split: prod.splits)

lemma default_is_not_read_data: "CheckDepthDefault \<noteq> CheckDepthReadData"
  by (simp add: CheckDepthDefault_def CheckDepthReadData_def)

lemma positive_cint_of_nat: "0 < n \<Longrightarrow> n < 2 ^ 31 \<Longrightarrow> 0 < sint (word_of_nat n :: cint)"
  by (simp add: sint_of_nat_cint)

text \<open>
  The check at the C boundary below the limit of \<^verbatim>\<open>C.int\<close>.  When the index loads and the
  checker's index check reports no error, \<^verbatim>\<open>Check\<close> returns no operation-level error,
  whatever the pack check and the data check have recorded, and \<^verbatim>\<open>Success\<close> is false as
  soon as one of them recorded an error.  For a registered handle of such a repository
  \<^verbatim>\<open>restic_check\<close> returns \<^verbatim>\<open>RESTIC_OK\<close> and writes the number of pack errors, converted
  to \<^verbatim>\<open>C.int\<close>, to \<^verbatim>\<open>errors_out\<close>; that value is greater than 0 when there are between 1
  and 2147483647 pack errors.
\<close>

theorem C10_check_errors_returned_as_ok:
  assumes "index_error r = None" and "snd (checker_index r) = []"
  shows "snd (Check r depth) = None
       \<and> (Success (fst (Check r depth)) \<longleftrightarrow>
            checker_packs r = [] \<and> (depth = CheckDepthReadData \<longrightarrow> checker_data r = []))
       \<and> (repositories s (scast h) = Some r \<and> Check_m ops = Check \<longrightarrow>
            restic_check ops s h = ((RESTIC_OK, Some (word_of_nat (length (checker_packs r)))), s)
            \<and> (0 < length (checker_packs r) \<and> length (checker_packs r) < 2 ^ 31 \<longrightarrow>
                 0 < sint (word_of_nat (length (checker_packs r)) :: cint)))"
proof -
  note c = Check_without_index_errors [OF assms]
  have "restic_check ops s h = ((RESTIC_OK, Some (word_of_nat (length (checker_packs r)))), s)"
    if "repositories s (scast h) = Some r" and "Check_m ops = Check"
  proof -
    have "Check r CheckDepthDefault = (fst (Check r CheckDepthDefault), None)"
      using c(1) [of CheckDepthDefault] by (simp add: prod_eq_iff)
    moreover have "length (Errors (fst (Check r CheckDepthDefault))) = length (checker_packs r)"
      using c(2) [of CheckDepthDefault] by (simp add: default_is_not_read_data)
    ultimately show ?thesis
      using that by (auto simp: restic_check_def split: prod.splits option.splits)
  qed
  then show ?thesis
    using c(1,3) positive_cint_of_nat by blast
qed

lemma damaged_ok: "index_error damaged_repo = None" "snd (checker_index damaged_repo) = []"
  by (simp_all add: damaged_repo_def example_repo_def)

theorem C10_check_errors_returned_as_ok_witness:
  "snd (Check damaged_repo CheckDepthDefault) = None
   \<and> \<not> Success (fst (Check damaged_repo CheckDepthDefault))
   \<and> restic_check example_ops \<lparr>repositories = [1 \<mapsto> damaged_repo], nextRepoID = 2\<rparr> 1
       = ((RESTIC_OK, Some 2), \<lparr>repositories = [1 \<mapsto> damaged_repo], nextRepoID = 2\<rparr>)"
  using C10_check_errors_returned_as_ok [OF damaged_ok, of CheckDepthDefault
      "\<lparr>repositories = [1 \<mapsto> damaged_repo], nextRepoID = 2\<rparr>" 1 example_ops]
  by (simp add: example_ops_def repo_ops_def)
     (simp add: damaged_repo_def example_repo_def)

lemma flooded_ok: "index_error flooded_repo = None" "snd (checker_index flooded_repo) = []"
  by (simp_all add: flooded_repo_def example_repo_def)

text \<open>
  Claim C10.  The claim has \<^verbatim>\<open>restic_check\<close> return \<^verbatim>\<open>RESTIC_OK\<close> and write a value greater
  than 0 to \<^verbatim>\<open>errors_out\<close> when the pack check has recorded errors, and the header
  documents \<^verbatim>\<open>errors_out\<close> as the number of errors found.  The code converts the count
  with \<^verbatim>\<open>C.int(len(report.Errors))\<close> and does not check the range: for a registered
  repository with 2147483648 pack errors it returns \<^verbatim>\<open>RESTIC_OK\<close> and writes
  -2147483648.
\<close>

theorem C10_error_count_wraps:
  "fst (fst (restic_check example_ops \<lparr>repositories = [1 \<mapsto> flooded_repo], nextRepoID = 2\<rparr> 1)) = RESTIC_OK
   \<and> map_option sint (snd (fst (restic_check example_ops \<lparr>repositories = [1 \<mapsto> flooded_repo], nextRepoID = 2\<rparr> 1)))
       = Some (- 2147483648)
   \<and> length (checker_packs flooded_repo) = 2147483648"
proof -
  have "restic_check example_ops \<lparr>repositories = [1 \<mapsto> flooded_repo], nextRepoID = 2\<rparr> 1
      = ((RESTIC_OK, Some (word_of_nat (length (checker_packs flooded_repo)))),
         \<lparr>repositories = [1 \<mapsto> flooded_repo], nextRepoID = 2\<rparr>)"
    using Check_without_index_errors [OF flooded_ok, of CheckDepthDefault]
    by (auto simp: restic_check_def example_ops_def repo_ops_def default_is_not_read_data
        split: prod.splits option.splits)
  moreover have "length (checker_packs flooded_repo) = 2147483648"
    by (simp add: flooded_repo_def)
  ultimately show ?thesis by simp
qed


end
